theory Spec2Isabelle
  imports Complex_Main "HOL-Library.Log_Nat" "HOL-Library.Sublist"
begin

section \<open>Python values\<close>

text \<open>
  The tool functions of \<^verbatim>\<open>tools.py\<close> are called by the dispatcher with keyword arguments
  taken from a JSON object, and they read JSON documents returned by remote services.
  Nothing checks the declared parameter types at run time, so every argument and every
  response is a dynamically typed value: \<open>None\<close>, a \<open>bool\<close>, an unbounded \<open>int\<close>, a
  \<open>float\<close>, a \<open>str\<close>, a \<open>list\<close> or a \<open>dict\<close> with string keys (kept as an association
  list in insertion order).

  A \<open>str\<close> is modelled by the bytes of its UTF-8 encoding.

  A \<open>float\<close> is an IEEE binary64 number: a finite value is kept as the rational number it
  denotes, next to negative zero, the two infinities and NaN.
\<close>

datatype pyfloat = Finite rat | NegZero | PosInf | NegInf | NaN

datatype pyval =
    PNone
  | PBool bool
  | PInt int
  | PFloat pyfloat
  | PStr string
  | PList "pyval list"
  | PDict "(string \<times> pyval) list"

text \<open>
  An exception is a value: its class, the operation that raised it and the operands of
  that operation. Every class listed here derives from \<open>Exception\<close>. \<open>OtherError\<close>
  stands for whatever the HTTP client or the JSON decoder raises.
\<close>

datatype exc_class =
  TypeError | KeyError | IndexError | AttributeError | OverflowError | ValueError | OtherError

datatype exc = Exc (exc_class: exc_class) (raised_by: string) (operands: "pyval list")

definition and_then :: "exc + 'a \<Rightarrow> ('a \<Rightarrow> exc + 'b) \<Rightarrow> exc + 'b" where
  "and_then m f = (case m of Inl e \<Rightarrow> Inl e | Inr v \<Rightarrow> f v)"

text \<open>
  What the module reads from its surroundings: the two credentials (module globals
  initialised from the process environment), and the outcome of the single HTTP request a
  tool function issues followed by \<open>r.json()\<close> (either the decoded document or the
  exception raised by the client or the decoder). The request itself carries no
  information back into the function, so it is not modelled: the theorems hold for every
  outcome. The texts that the interpreter produces for \<open>str(e)\<close> of an exception and for
  \<open>repr\<close> of a value that is neither a string, \<open>None\<close>, a \<open>bool\<close>, an \<open>int\<close> nor a
  whole-number \<open>float\<close> are parameters as well, and so is the lower-case form that the
  interpreter's Unicode database gives to a character beyond ASCII: \<open>unicode_lower\<close> maps
  the characters before it, the character and the characters after it to that form
  (the form of a capital sigma depends on its neighbours).
\<close>

record env =
  GOOGLE_API_KEY :: string
  SERPAPI_KEY :: string
  http_json :: "exc + pyval"
  str_exc :: "exc \<Rightarrow> string"
  repr_val :: "pyval \<Rightarrow> string"
  unicode_lower :: "string list \<Rightarrow> string \<Rightarrow> string list \<Rightarrow> string"


section \<open>Binary64 arithmetic\<close>

text \<open>Rounding a rational to the nearest integer, ties to the even one.\<close>

definition rhe :: "rat \<Rightarrow> int" where
  "rhe y = (let f = \<lfloor>y\<rfloor>; d = y - of_int f
            in if d < 1 / 2 then f else if 1 / 2 < d then f + 1
               else if even f then f else f + 1)"

text \<open>The exponent \<open>e\<close> with \<open>2 ^ e \<le> |x| < 2 ^ (e + 1)\<close> of a non-zero rational.\<close>

definition binade :: "rat \<Rightarrow> int" where
  "binade x = (let a = \<bar>x\<bar>
               in if 1 \<le> a then bitlen \<lfloor>a\<rfloor> - 1 else - bitlen (\<lceil>1 / a\<rceil> - 1))"

text \<open>
  Rounding to 53 significant bits, nearest-even, with the subnormal spacing below
  \<open>2 ^ -1022\<close>; the exponent range is not bounded above here.
\<close>

definition rnd :: "rat \<Rightarrow> rat" where
  "rnd x = (let u = 2 powi (max (binade x) (- 1022) - 52) in of_int (rhe (x / u)) * u)"

text \<open>The result of a float operation whose exact value is \<open>x\<close>.\<close>

definition fl :: "rat \<Rightarrow> pyfloat" where
  "fl x = (let r = rnd x
           in if 2 ^ 1024 \<le> r then PosInf else if r \<le> - (2 ^ 1024) then NegInf
              else if r = 0 \<and> x < 0 then NegZero else Finite r)"

text \<open>A decimal float literal of the source denotes the nearest binary64 number.\<close>

definition lit :: "rat \<Rightarrow> pyfloat" where
  "lit q = Finite (rnd q)"

text \<open>Converting an \<open>int\<close> operand to \<open>float\<close> raises \<open>OverflowError\<close> beyond the range.\<close>

definition float_of_int :: "string \<Rightarrow> int \<Rightarrow> exc + pyfloat" where
  "float_of_int opn n = (let r = rnd (of_int n)
     in if 2 ^ 1024 \<le> \<bar>r\<bar> then Inl (Exc OverflowError opn [PInt n]) else Inr (Finite r))"

text \<open>The float operand of an arithmetic operator; other types raise \<open>TypeError\<close>.\<close>

fun float_operand :: "string \<Rightarrow> pyval \<Rightarrow> exc + pyfloat" where
  "float_operand opn (PInt n) = float_of_int opn n"
| "float_operand opn (PBool b) = Inr (Finite (if b then 1 else 0))"
| "float_operand opn (PFloat f) = Inr f"
| "float_operand opn v = Inl (Exc TypeError opn [v])"

text \<open>\<open>x * c\<close> and \<open>x / d\<close> for a float \<open>x\<close> and a positive finite constant.\<close>

fun float_mul_pos :: "pyfloat \<Rightarrow> rat \<Rightarrow> pyfloat" where
  "float_mul_pos (Finite q) c = fl (q * c)"
| "float_mul_pos f c = f"

fun float_div_pos :: "pyfloat \<Rightarrow> rat \<Rightarrow> pyfloat" where
  "float_div_pos (Finite q) d = fl (q / d)"
| "float_div_pos f d = f"

text \<open>\<open>v * c\<close> where \<open>c\<close> is a positive float literal with decimal value \<open>c\<close>.\<close>

definition py_mul_lit :: "pyval \<Rightarrow> rat \<Rightarrow> exc + pyval" where
  "py_mul_lit v c = and_then (float_operand ''*'' v) (\<lambda>f. Inr (PFloat (float_mul_pos f (rnd c))))"

text \<open>
  \<open>v / d\<close> for a positive \<open>int\<close> literal \<open>d\<close>. With an \<open>int\<close> on the left this is the
  correctly rounded quotient of the two integers.
\<close>

fun py_truediv_int :: "pyval \<Rightarrow> int \<Rightarrow> exc + pyfloat" where
  "py_truediv_int (PInt n) d = (let r = rnd (of_int n / of_int d)
     in if 2 ^ 1024 \<le> \<bar>r\<bar> then Inl (Exc OverflowError ''/'' [PInt n, PInt d])
        else Inr (Finite r))"
| "py_truediv_int (PBool b) d = Inr (Finite (rnd ((if b then 1 else 0) / of_int d)))"
| "py_truediv_int (PFloat f) d = Inr (float_div_pos f (of_int d))"
| "py_truediv_int v d = Inl (Exc TypeError ''/'' [v, PInt d])"

text \<open>
  \<open>x // d\<close> on a float, following the interpreter's \<open>float_divmod\<close> for a positive
  divisor: the remainder \<open>fmod\<close> is exact, the quotient is computed in binary64 and
  snapped to a whole number.
\<close>

definition float_floordiv_pos :: "pyfloat \<Rightarrow> rat \<Rightarrow> pyfloat" where
  "float_floordiv_pos x d = (case x of
       Finite q \<Rightarrow>
         (let t = (if 0 \<le> q then \<lfloor>q / d\<rfloor> else \<lceil>q / d\<rceil>);
              md = q - d * of_int t;
              a = rnd (q - md);
              dv = rnd (a / d);
              dv' = (if md < 0 then rnd (dv - 1) else dv)
          in if dv' = 0 then Finite 0
             else (let fd = of_int \<lfloor>dv'\<rfloor>
                   in fl (if 1 / 2 < rnd (dv' - fd) then rnd (fd + 1) else fd)))
     | NegZero \<Rightarrow> NegZero
     | _ \<Rightarrow> NaN)"

fun py_floordiv_int :: "pyval \<Rightarrow> int \<Rightarrow> exc + pyval" where
  "py_floordiv_int (PInt n) d = Inr (PInt (n div d))"
| "py_floordiv_int (PBool b) d = Inr (PInt ((if b then 1 else 0) div d))"
| "py_floordiv_int (PFloat f) d = Inr (PFloat (float_floordiv_pos f (of_int d)))"
| "py_floordiv_int v d = Inl (Exc TypeError ''//'' [v, PInt d])"

text \<open>\<open>c + x\<close> for an \<open>int\<close> literal \<open>c\<close> and a float \<open>x\<close>.\<close>

fun float_add_int :: "int \<Rightarrow> pyfloat \<Rightarrow> pyfloat" where
  "float_add_int c (Finite q) = fl (of_int c + q)"
| "float_add_int c NegZero = fl (of_int c)"
| "float_add_int c f = f"

text \<open>\<open>round(x, 1)\<close>: the correctly rounded decimal with one fractional digit.\<close>

fun float_round1 :: "pyfloat \<Rightarrow> pyfloat" where
  "float_round1 (Finite q) = (let d = of_int (rhe (q * 10)) / 10
     in if d = 0 \<and> q < 0 then NegZero else fl d)"
| "float_round1 f = f"

text \<open>\<open>int(x)\<close> truncates towards zero and refuses infinities and NaN.\<close>

fun int_of_float :: "pyfloat \<Rightarrow> exc + int" where
  "int_of_float (Finite q) = Inr (if 0 \<le> q then \<lfloor>q\<rfloor> else \<lceil>q\<rceil>)"
| "int_of_float NegZero = Inr 0"
| "int_of_float NaN = Inl (Exc ValueError ''int'' [PFloat NaN])"
| "int_of_float f = Inl (Exc OverflowError ''int'' [PFloat f])"

text \<open>
  Ordering of numbers. An \<open>int\<close> is compared with a \<open>float\<close> by exact value, and every
  comparison with NaN is false. In this module one operand of each comparison is an \<open>int\<close>
  or the float product of a budget, so an operand that is not a number raises
  \<open>TypeError\<close>.
\<close>

fun as_number :: "pyval \<Rightarrow> pyfloat option" where
  "as_number (PInt n) = Some (Finite (of_int n))"
| "as_number (PBool b) = Some (Finite (if b then 1 else 0))"
| "as_number (PFloat f) = Some f"
| "as_number v = None"

fun float_le :: "pyfloat \<Rightarrow> pyfloat \<Rightarrow> bool" where
  "float_le NaN y = False"
| "float_le x NaN = False"
| "float_le NegInf y = True"
| "float_le x PosInf = True"
| "float_le PosInf y = False"
| "float_le x NegInf = False"
| "float_le NegZero NegZero = True"
| "float_le NegZero (Finite q) = (0 \<le> q)"
| "float_le (Finite p) NegZero = (p \<le> 0)"
| "float_le (Finite p) (Finite q) = (p \<le> q)"

fun float_lt :: "pyfloat \<Rightarrow> pyfloat \<Rightarrow> bool" where
  "float_lt NaN y = False"
| "float_lt x NaN = False"
| "float_lt PosInf y = False"
| "float_lt x NegInf = False"
| "float_lt x PosInf = True"
| "float_lt NegInf y = True"
| "float_lt NegZero NegZero = False"
| "float_lt NegZero (Finite q) = (0 < q)"
| "float_lt (Finite p) NegZero = (p < 0)"
| "float_lt (Finite p) (Finite q) = (p < q)"

definition py_le :: "pyval \<Rightarrow> pyval \<Rightarrow> exc + bool" where
  "py_le a b = (case (as_number a, as_number b) of
       (Some x, Some y) \<Rightarrow> Inr (float_le x y)
     | _ \<Rightarrow> Inl (Exc TypeError ''<='' [a, b]))"

definition py_gt :: "pyval \<Rightarrow> pyval \<Rightarrow> exc + bool" where
  "py_gt a b = (case (as_number a, as_number b) of
       (Some x, Some y) \<Rightarrow> Inr (float_lt y x)
     | _ \<Rightarrow> Inl (Exc TypeError ''>'' [a, b]))"

definition py_ge :: "pyval \<Rightarrow> pyval \<Rightarrow> exc + bool" where
  "py_ge a b = (case (as_number a, as_number b) of
       (Some x, Some y) \<Rightarrow> Inr (float_le y x)
     | _ \<Rightarrow> Inl (Exc TypeError ''>='' [a, b]))"


section \<open>Containers and strings\<close>

text \<open>Truth value of an object, as \<open>or\<close> and \<open>if\<close> test it.\<close>

fun truthy :: "pyval \<Rightarrow> bool" where
  "truthy PNone = False"
| "truthy (PBool b) = b"
| "truthy (PInt n) = (n \<noteq> 0)"
| "truthy (PFloat f) = (f \<noteq> Finite 0 \<and> f \<noteq> NegZero)"
| "truthy (PStr s) = (s \<noteq> [])"
| "truthy (PList xs) = (xs \<noteq> [])"
| "truthy (PDict kvs) = (kvs \<noteq> [])"

definition lookup_or :: "(string \<times> pyval) list \<Rightarrow> string \<Rightarrow> pyval \<Rightarrow> pyval" where
  "lookup_or kvs k d = (case map_of kvs k of Some v \<Rightarrow> v | None \<Rightarrow> d)"

text \<open>\<open>v.get(k, d)\<close>: only a \<open>dict\<close> has the method.\<close>

fun dict_get :: "pyval \<Rightarrow> string \<Rightarrow> pyval \<Rightarrow> exc + pyval" where
  "dict_get (PDict kvs) k d = Inr (lookup_or kvs k d)"
| "dict_get v k d = Inl (Exc AttributeError ''get'' [v])"

text \<open>\<open>v[k]\<close> for a string key and \<open>v[0]\<close>.\<close>

fun py_getitem_key :: "pyval \<Rightarrow> string \<Rightarrow> exc + pyval" where
  "py_getitem_key (PDict kvs) k =
     (case map_of kvs k of Some v \<Rightarrow> Inr v
      | None \<Rightarrow> Inl (Exc KeyError ''[]'' [PDict kvs, PStr k]))"
| "py_getitem_key v k = Inl (Exc TypeError ''[]'' [v, PStr k])"

definition is_cont :: "char \<Rightarrow> bool" where
  "is_cont c = (128 \<le> (of_char c :: nat) \<and> (of_char c :: nat) < 192)"

text \<open>The characters of a string: each leading byte with its continuation bytes.\<close>

function utf8_chars :: "string \<Rightarrow> string list" where
  "utf8_chars [] = []"
| "utf8_chars (c # cs) = (c # takeWhile is_cont cs) # utf8_chars (dropWhile is_cont cs)"
  by pat_completeness auto
termination
  by (relation "measure length") (auto simp: length_dropWhile_le less_Suc_eq_le)

fun py_getitem_0 :: "pyval \<Rightarrow> exc + pyval" where
  "py_getitem_0 (PList xs) =
     (case xs of [] \<Rightarrow> Inl (Exc IndexError ''[]'' [PList xs, PInt 0]) | x # _ \<Rightarrow> Inr x)"
| "py_getitem_0 (PStr s) =
     (case utf8_chars s of [] \<Rightarrow> Inl (Exc IndexError ''[]'' [PStr s, PInt 0])
      | c # _ \<Rightarrow> Inr (PStr c))"
| "py_getitem_0 (PDict kvs) = Inl (Exc KeyError ''[]'' [PDict kvs, PInt 0])"
| "py_getitem_0 v = Inl (Exc TypeError ''[]'' [v, PInt 0])"

text \<open>
  \<open>v[:limit]\<close> followed by iteration: the items the \<open>for\<close> loop visits. A negative bound
  counts from the end. Slicing a \<open>dict\<close> raises (\<open>TypeError\<close> up to Python 3.11).
\<close>

definition take_slice :: "'a list \<Rightarrow> int \<Rightarrow> 'a list" where
  "take_slice xs n = (if 0 \<le> n then take (nat n) xs else take (length xs - nat (- n)) xs)"

fun slice_items :: "'a list \<Rightarrow> pyval \<Rightarrow> pyval \<Rightarrow> exc + 'a list" where
  "slice_items xs v PNone = Inr xs"
| "slice_items xs v (PInt n) = Inr (take_slice xs n)"
| "slice_items xs v (PBool b) = Inr (take_slice xs (if b then 1 else 0))"
| "slice_items xs v limit = Inl (Exc TypeError ''[:]'' [v, limit])"

fun py_slice_to :: "pyval \<Rightarrow> pyval \<Rightarrow> exc + pyval list" where
  "py_slice_to (PList xs) limit = slice_items xs (PList xs) limit"
| "py_slice_to (PStr s) limit = slice_items (map PStr (utf8_chars s)) (PStr s) limit"
| "py_slice_to v limit = Inl (Exc TypeError ''[:]'' [v, limit])"

text \<open>\<open>k in s\<close> for two strings: \<open>k\<close> occurs in \<open>s\<close> as a contiguous block.\<close>

fun str_contains :: "string \<Rightarrow> string \<Rightarrow> bool" where
  "str_contains k [] = (k = [])"
| "str_contains k (c # cs) = (prefix k (c # cs) \<or> str_contains k cs)"

text \<open>
  \<open>s.lower()\<close> replaces every character of \<open>s\<close> by its lower-case form, which may be
  several characters long. For a character below 128 that form is \<open>ascii_lower\<close>: the
  letter \<open>a..z\<close> for \<open>A..Z\<close> and the character itself otherwise.
\<close>

definition ascii_lower :: "char \<Rightarrow> char" where
  "ascii_lower c =
     (case map_of (zip ''ABCDEFGHIJKLMNOPQRSTUVWXYZ'' ''abcdefghijklmnopqrstuvwxyz'') c of
        Some l \<Rightarrow> l | None \<Rightarrow> c)"

text \<open>
  Two characters beyond ASCII have a lower-case form with an ASCII letter in it: the
  capital I with dot above, U+0130 (bytes \<open>C4 B0\<close>), becomes \<open>i\<close> followed by the combining
  dot above U+0307 (bytes \<open>CC 87\<close>), and the Kelvin sign U+212A (bytes \<open>E2 84 AA\<close>) becomes
  \<open>k\<close>. The form of every other character beyond ASCII is read from \<open>unicode_lower\<close>.
\<close>

definition lower_one :: "env \<Rightarrow> string list \<Rightarrow> string \<Rightarrow> string list \<Rightarrow> string" where
  "lower_one w seen c rest =
     (if c = [CHR 0xC4, CHR 0xB0] then [CHR ''i'', CHR 0xCC, CHR 0x87]
      else if c = [CHR 0xE2, CHR 0x84, CHR 0xAA] then ''k''
      else case c of
             [b] \<Rightarrow> (if (of_char b :: nat) < 128 then [ascii_lower b]
                     else unicode_lower w seen c rest)
           | _ \<Rightarrow> unicode_lower w seen c rest)"

fun lower_from :: "env \<Rightarrow> string list \<Rightarrow> string list \<Rightarrow> string" where
  "lower_from w seen [] = []"
| "lower_from w seen (c # rest) =
     lower_one w seen c rest @ lower_from w (seen @ [c]) rest"

definition str_lower :: "env \<Rightarrow> string \<Rightarrow> string" where
  "str_lower w s = lower_from w [] (utf8_chars s)"

fun py_lower :: "env \<Rightarrow> pyval \<Rightarrow> exc + string" where
  "py_lower w (PStr s) = Inr (str_lower w s)"
| "py_lower w v = Inl (Exc AttributeError ''lower'' [v])"


section \<open>Text of values and JSON serialisation\<close>

fun digits10 :: "nat \<Rightarrow> string" where
  "digits10 n = (if n < 10 then [''0123456789'' ! n]
                 else digits10 (n div 10) @ [''0123456789'' ! (n mod 10)])"

declare digits10.simps [simp del]

definition show_int :: "int \<Rightarrow> string" where
  "show_int i = (if i < 0 then CHR ''-'' # digits10 (nat (- i)) else digits10 (nat i))"

text \<open>
  \<open>repr\<close> of a float. A whole number below \<open>10 ^ 16\<close> is printed with one zero decimal;
  the shortest round-trip digits of any other finite value come from the parameter.
\<close>

definition float_repr :: "env \<Rightarrow> pyfloat \<Rightarrow> string" where
  "float_repr w f = (case f of
       Finite q \<Rightarrow> (if of_int \<lfloor>q\<rfloor> = q \<and> \<bar>q\<bar> < 10 ^ 16 then show_int \<lfloor>q\<rfloor> @ ''.0''
                    else repr_val w (PFloat f))
     | NegZero \<Rightarrow> ''-0.0'' | PosInf \<Rightarrow> ''inf'' | NegInf \<Rightarrow> ''-inf'' | NaN \<Rightarrow> ''nan'')"

text \<open>The text a formatted string literal inserts for a value.\<close>

fun py_str :: "env \<Rightarrow> pyval \<Rightarrow> string" where
  "py_str w (PStr s) = s"
| "py_str w PNone = ''None''"
| "py_str w (PBool b) = (if b then ''True'' else ''False'')"
| "py_str w (PInt n) = show_int n"
| "py_str w (PFloat f) = float_repr w f"
| "py_str w v = repr_val w v"

definition hexdigit :: "nat \<Rightarrow> char" where
  "hexdigit d = ''0123456789abcdef'' ! d"

definition uescape :: "nat \<Rightarrow> string" where
  "uescape n = [CHR 0x5C, CHR ''u'', hexdigit (n div 4096 mod 16), hexdigit (n div 256 mod 16),
                hexdigit (n div 16 mod 16), hexdigit (n mod 16)]"

text \<open>The escapes \<open>json.dumps\<close> applies to a character below 128.\<close>

definition esc_byte :: "char \<Rightarrow> string" where
  "esc_byte c =
     (if c = CHR 0x22 then [CHR 0x5C, CHR 0x22]
      else if c = CHR 0x5C then [CHR 0x5C, CHR 0x5C]
      else if c = CHR 0x0A then [CHR 0x5C, CHR ''n'']
      else if c = CHR 0x0D then [CHR 0x5C, CHR ''r'']
      else if c = CHR 0x09 then [CHR 0x5C, CHR ''t'']
      else if c = CHR 0x08 then [CHR 0x5C, CHR ''b'']
      else if c = CHR 0x0C then [CHR 0x5C, CHR ''f'']
      else if (of_char c :: nat) < 0x20 then uescape (of_char c)
      else [c])"

text \<open>
  With \<open>ensure_ascii\<close> every character outside \<open>' '..'~'\<close> becomes a \<open>\uXXXX\<close> escape of
  its code point, a surrogate pair beyond the basic plane. A byte that does not start a
  well-formed sequence is escaped by itself; the encoding of a \<open>str\<close> has none.
\<close>

definition code_point :: "string \<Rightarrow> nat" where
  "code_point s = (case map of_char s of
       [a, b] \<Rightarrow> (a - 192) * 64 + (b - 128)
     | [a, b, c] \<Rightarrow> (a - 224) * 4096 + (b - 128) * 64 + (c - 128)
     | [a, b, c, d] \<Rightarrow> (a - 240) * 262144 + (b - 128) * 4096 + (c - 128) * 64 + (d - 128)
     | a # _ \<Rightarrow> a
     | [] \<Rightarrow> 0)"

definition esc_char_ascii :: "string \<Rightarrow> string" where
  "esc_char_ascii s = (let n = code_point s in
     if n < 0x7F then (case s of [c] \<Rightarrow> esc_byte c | _ \<Rightarrow> uescape n)
     else if n < 0x10000 then uescape n
     else uescape (0xD800 + (n - 0x10000) div 1024) @ uescape (0xDC00 + (n - 0x10000) mod 1024))"

definition json_escape :: "bool \<Rightarrow> string \<Rightarrow> string" where
  "json_escape ensure_ascii s =
     (if ensure_ascii then concat (map esc_char_ascii (utf8_chars s))
      else concat (map esc_byte s))"

definition json_string :: "bool \<Rightarrow> string \<Rightarrow> string" where
  "json_string ensure_ascii s = CHR 0x22 # json_escape ensure_ascii s @ [CHR 0x22]"

fun join :: "string \<Rightarrow> string list \<Rightarrow> string" where
  "join sep [] = []"
| "join sep [x] = x"
| "join sep (x # y # ys) = x @ sep @ join sep (y # ys)"

definition json_float :: "env \<Rightarrow> pyfloat \<Rightarrow> string" where
  "json_float w f = (case f of PosInf \<Rightarrow> ''Infinity'' | NegInf \<Rightarrow> ''-Infinity''
     | NaN \<Rightarrow> ''NaN'' | _ \<Rightarrow> float_repr w f)"

text \<open>\<open>json.dumps(v, ensure_ascii=...)\<close> with the default separators.\<close>

fun json_dumps :: "env \<Rightarrow> bool \<Rightarrow> pyval \<Rightarrow> string" where
  "json_dumps w ea PNone = ''null''"
| "json_dumps w ea (PBool b) = (if b then ''true'' else ''false'')"
| "json_dumps w ea (PInt n) = show_int n"
| "json_dumps w ea (PFloat f) = json_float w f"
| "json_dumps w ea (PStr s) = json_string ea s"
| "json_dumps w ea (PList xs) = ''['' @ join '', '' (map (json_dumps w ea) xs) @ '']''"
| "json_dumps w ea (PDict kvs) =
     ''{'' @ join '', '' (map (\<lambda>kv. json_string ea (fst kv) @ '': '' @ json_dumps w ea (snd kv)) kvs)
     @ ''}''"


section \<open>Loops that collect\<close>

text \<open>
  A \<open>for\<close> loop that appends to a result list, and a list comprehension with a
  condition, visit the items in order; the body either raises, skips the item or
  contributes one element.
\<close>

fun collect :: "('a \<Rightarrow> exc + 'b option) \<Rightarrow> 'a list \<Rightarrow> exc + 'b list" where
  "collect body [] = Inr []"
| "collect body (x # xs) =
     and_then (body x) (\<lambda>item.
     and_then (collect body xs) (\<lambda>rest.
       Inr (case item of None \<Rightarrow> rest | Some y \<Rightarrow> y # rest)))"


section \<open>Restaurants\<close>

text \<open>
  \<open>cost_map.get(price_level, 350)\<close>: the key is hashed, which a \<open>list\<close> or a \<open>dict\<close>
  refuses, and then compared with the \<open>int\<close> keys by numeric value.
\<close>

fun int_key :: "pyval \<Rightarrow> exc + int option" where
  "int_key (PInt n) = Inr (Some n)"
| "int_key (PBool b) = Inr (Some (if b then 1 else 0))"
| "int_key (PFloat (Finite q)) = Inr (if of_int \<lfloor>q\<rfloor> = q then Some \<lfloor>q\<rfloor> else None)"
| "int_key (PFloat NegZero) = Inr (Some 0)"
| "int_key (PFloat f) = Inr None"
| "int_key (PStr s) = Inr None"
| "int_key PNone = Inr None"
| "int_key v = Inl (Exc TypeError ''hash'' [v])"

definition cost_map :: "(int \<times> int) list" where
  "cost_map = [(1, 150), (2, 350), (3, 600), (4, 1200)]"

definition cost_map_get :: "pyval \<Rightarrow> exc + int" where
  "cost_map_get price_level = and_then (int_key price_level) (\<lambda>k.
     Inr (case k of None \<Rightarrow> 350
          | Some n \<Rightarrow> (case map_of cost_map n of Some c \<Rightarrow> c | None \<Rightarrow> 350)))"

text \<open>The record appended for a place \<open>p\<close> that is a \<open>dict\<close> with items \<open>kvs\<close>.\<close>

definition restaurant_entry :: "env \<Rightarrow> pyval \<Rightarrow> (string \<times> pyval) list \<Rightarrow> pyval \<Rightarrow> int \<Rightarrow> pyval" where
  "restaurant_entry w area kvs price_level est_cost = PDict
     [(''name'', lookup_or kvs ''name'' PNone),
      (''address'', lookup_or kvs ''formatted_address'' area),
      (''rating'', lookup_or kvs ''rating'' (PFloat (lit 4))),
      (''price_level'', price_level),
      (''estimated_cost'', PInt est_cost),
      (''maps_url'', PStr (''https://www.google.com/maps/place/?q=place_id:''
                           @ py_str w (lookup_or kvs ''place_id'' PNone))),
      (''place_id'', lookup_or kvs ''place_id'' PNone)]"

text \<open>
  The body of the \<open>for\<close> loop of \<open>search_restaurants\<close>. The first \<open>p.get\<close> raises
  \<open>AttributeError\<close> unless \<open>p\<close> is a \<open>dict\<close>; the later ones then cannot fail.
\<close>

definition restaurant_step :: "env \<Rightarrow> pyval \<Rightarrow> pyval \<Rightarrow> pyval \<Rightarrow> exc + pyval option" where
  "restaurant_step w area max_budget_per_person p =
     (case p of
        PDict kvs \<Rightarrow>
          (let price_level = lookup_or kvs ''price_level'' (PInt 2) in
           and_then (cost_map_get price_level) (\<lambda>est_cost.
           and_then (py_mul_lit max_budget_per_person (45 / 100)) (\<lambda>bound.
           and_then (py_gt (PInt est_cost) bound) (\<lambda>too_pricey.
             if too_pricey then Inr None
             else Inr (Some (restaurant_entry w area kvs price_level est_cost))))))
      | _ \<Rightarrow> Inl (Exc AttributeError ''get'' [p]))"

definition all_restaurants :: "pyval list" where
  "all_restaurants =
    [PDict [(''name'', PStr ''Paradise Biryani''), (''address'', PStr ''MG Road, Secunderabad''),
            (''rating'', PFloat (lit (44 / 10))), (''estimated_cost'', PInt 320),
            (''maps_url'', PStr ''https://maps.google.com/?q=Paradise+Biryani+Hyderabad'')],
     PDict [(''name'', PStr ''Bawarchi Restaurant''), (''address'', PStr ''RTC X Roads, Hyderabad''),
            (''rating'', PFloat (lit (43 / 10))), (''estimated_cost'', PInt 280),
            (''maps_url'', PStr ''https://maps.google.com/?q=Bawarchi+Hyderabad'')],
     PDict [(''name'', PStr ''Rayalaseema Ruchulu''), (''address'', PStr ''Banjara Hills, Hyderabad''),
            (''rating'', PFloat (lit (42 / 10))), (''estimated_cost'', PInt 350),
            (''maps_url'', PStr ''https://maps.google.com/?q=Rayalaseema+Ruchulu+Hyderabad'')],
     PDict [(''name'', PStr (''AB'' @ [CHR 0x27] @ ''s '' @ [CHR 0xE2, CHR 0x80, CHR 0x93]
                             @ '' Absolute Barbecues'')),
            (''address'', PStr ''Jubilee Hills, Hyderabad''),
            (''rating'', PFloat (lit (45 / 10))), (''estimated_cost'', PInt 700),
            (''maps_url'', PStr ''https://maps.google.com/?q=AB%27s+Absolute+Barbecues+Hyderabad'')],
     PDict [(''name'', PStr (''Ohri'' @ [CHR 0x27] @ ''s Jiva Imperia'')),
            (''address'', PStr ''Basheer Bagh, Hyderabad''),
            (''rating'', PFloat (lit (41 / 10))), (''estimated_cost'', PInt 600),
            (''maps_url'', PStr ''https://maps.google.com/?q=Ohri%27s+Hyderabad'')],
     PDict [(''name'', PStr ''Shah Ghouse Cafe''), (''address'', PStr ''Tolichowki, Hyderabad''),
            (''rating'', PFloat (lit (45 / 10))), (''estimated_cost'', PInt 200),
            (''maps_url'', PStr ''https://maps.google.com/?q=Shah+Ghouse+Hyderabad'')],
     PDict [(''name'', PStr ''Chutneys''), (''address'', PStr ''Banjara Hills, Hyderabad''),
            (''rating'', PFloat (lit (43 / 10))), (''estimated_cost'', PInt 250),
            (''maps_url'', PStr ''https://maps.google.com/?q=Chutneys+Hyderabad'')]]"

text \<open>
  The condition of the comprehension \<open>[r for r in rows if r[key] <= bound]\<close>; the bound
  expression is evaluated anew for every row, after the left operand.
\<close>

definition keep_le :: "string \<Rightarrow> exc + pyval \<Rightarrow> pyval \<Rightarrow> exc + pyval option" where
  "keep_le key bound r =
     and_then (py_getitem_key r key) (\<lambda>v.
     and_then bound (\<lambda>t.
     and_then (py_le v t) (\<lambda>keep.
       Inr (if keep then Some r else None))))"

definition mock_restaurants :: "pyval \<Rightarrow> pyval \<Rightarrow> exc + pyval" where
  "mock_restaurants area budget =
     and_then (collect (keep_le ''estimated_cost'' (py_mul_lit budget (5 / 10))) all_restaurants) (\<lambda>rs.
       Inr (PList (take_slice rs 4)))"

definition search_restaurants :: "env \<Rightarrow> pyval \<Rightarrow> pyval \<Rightarrow> pyval \<Rightarrow> pyval \<Rightarrow> exc + pyval" where
  "search_restaurants w area max_budget_per_person cuisine limit =
     (if GOOGLE_API_KEY w = [] then mock_restaurants area max_budget_per_person
      else
        and_then (http_json w) (\<lambda>data.
        and_then (dict_get data ''results'' (PList [])) (\<lambda>found.
        and_then (py_slice_to found limit) (\<lambda>ps.
        and_then (collect (restaurant_step w area max_budget_per_person) ps) (\<lambda>results.
          if results \<noteq> [] then Inr (PList results)
          else mock_restaurants area max_budget_per_person)))))"


section \<open>Movies\<close>

definition estimate_ticket_price :: "pyval \<Rightarrow> exc + int" where
  "estimate_ticket_price max_price =
     and_then (py_ge max_price (PInt 400)) (\<lambda>premium.
       if premium then Inr 350
       else and_then (py_ge max_price (PInt 250)) (\<lambda>standard.
         if standard then Inr 220 else Inr 150))"

definition all_movies :: "pyval list" where
  "all_movies =
    [PDict [(''title'', PStr ''Check BookMyShow for Latest Shows''),
            (''theatre'', PStr ''AMB Cinemas, Gachibowli''), (''genre'', PStr ''Action''),
            (''rating'', PStr ''8.1/10''), (''ticket_price'', PInt 300),
            (''duration'', PStr ''2h 25m''),
            (''bookmyshow_url'', PStr ''https://in.bookmyshow.com/movies/hyderabad'')],
     PDict [(''title'', PStr (''PVR Inorbit '' @ [CHR 0xE2, CHR 0x80, CHR 0x93]
                              @ '' Current Blockbuster'')),
            (''theatre'', PStr ''PVR Inorbit Mall, HITEC City''), (''genre'', PStr ''Thriller''),
            (''rating'', PStr ''7.8/10''), (''ticket_price'', PInt 350),
            (''duration'', PStr ''2h 10m''),
            (''bookmyshow_url'', PStr ''https://in.bookmyshow.com/movies/hyderabad'')],
     PDict [(''title'', PStr (''INOX GVK One '' @ [CHR 0xE2, CHR 0x80, CHR 0x93]
                              @ '' Matinee Show'')),
            (''theatre'', PStr ''INOX GVK One, Banjara Hills''), (''genre'', PStr ''Comedy''),
            (''rating'', PStr ''7.2/10''), (''ticket_price'', PInt 200),
            (''duration'', PStr ''1h 55m''),
            (''bookmyshow_url'', PStr ''https://in.bookmyshow.com/movies/hyderabad'')]]"

definition mock_movies :: "pyval \<Rightarrow> pyval \<Rightarrow> exc + pyval" where
  "mock_movies genre budget =
     and_then (collect (keep_le ''ticket_price'' (Inr budget)) all_movies) (\<lambda>ms.
       Inr (PList (take_slice ms 3)))"

definition movie_entry :: "pyval \<Rightarrow> (string \<times> pyval) list \<Rightarrow> int \<Rightarrow> pyval" where
  "movie_entry preferred_genre kvs price = PDict
     [(''title'', lookup_or kvs ''name'' (PStr ''Unknown'')),
      (''theatre'', PStr ''PVR / INOX / AMB Cinemas''),
      (''genre'', if truthy preferred_genre then preferred_genre else PStr ''Drama''),
      (''rating'', lookup_or kvs ''rating'' (PStr ''7.5/10'')),
      (''ticket_price'', PInt price),
      (''duration'', lookup_or kvs ''duration'' (PStr ''2h 30m'')),
      (''bookmyshow_url'', PStr ''https://in.bookmyshow.com'')]"

text \<open>The body of the \<open>for\<close> loop of \<open>search_movies\<close>.\<close>

definition movie_step :: "pyval \<Rightarrow> pyval \<Rightarrow> pyval \<Rightarrow> exc + pyval option" where
  "movie_step preferred_genre max_ticket_price m =
     (case m of
        PDict kvs \<Rightarrow>
          and_then (estimate_ticket_price max_ticket_price) (\<lambda>price.
            Inr (Some (movie_entry preferred_genre kvs price)))
      | _ \<Rightarrow> Inl (Exc AttributeError ''get'' [m]))"

definition search_movies :: "env \<Rightarrow> pyval \<Rightarrow> pyval \<Rightarrow> pyval \<Rightarrow> exc + pyval" where
  "search_movies w preferred_genre max_ticket_price limit =
     (if SERPAPI_KEY w = [] then mock_movies preferred_genre max_ticket_price
      else
        and_then (http_json w) (\<lambda>data.
        and_then (dict_get data ''showtimes'' (PList [])) (\<lambda>found.
        and_then (py_slice_to found limit) (\<lambda>ms.
        and_then (collect (movie_step preferred_genre max_ticket_price) ms) (\<lambda>results.
          if results \<noteq> [] then Inr (PList results)
          else mock_movies preferred_genre max_ticket_price)))))"


section \<open>Places\<close>

definition fee_map :: "(string \<times> int) list" where
  "fee_map =
    [(''golconda'', 35), (''charminar'', 25), (''ramoji'', 1150),
     (''birla'', 0), (''hussain sagar'', 0), (''lumbini'', 50),
     (''nehru zoo'', 80), (''salar jung'', 20), (''qutb shahi'', 15),
     (''snow world'', 799), (''wonderla'', 999)]"

text \<open>The loop over \<open>fee_map.items()\<close>, in insertion order, with its early return.\<close>

fun fee_lookup :: "(string \<times> int) list \<Rightarrow> string \<Rightarrow> int" where
  "fee_lookup [] name_lower = 50"
| "fee_lookup ((k, v) # kvs) name_lower =
     (if str_contains k name_lower then v else fee_lookup kvs name_lower)"

definition estimate_entry_fee :: "env \<Rightarrow> pyval \<Rightarrow> exc + int" where
  "estimate_entry_fee w name = and_then (py_lower w name) (\<lambda>name_lower.
     Inr (fee_lookup fee_map name_lower))"

definition all_places :: "pyval list" where
  "all_places =
    [PDict [(''name'', PStr ''Hussain Sagar Lake & Tank Bund''),
            (''address'', PStr ''Tank Bund Road, Hyderabad''),
            (''rating'', PFloat (lit (43 / 10))), (''entry_fee'', PInt 0),
            (''visit_duration_mins'', PInt 60),
            (''maps_url'', PStr ''https://maps.google.com/?q=Hussain+Sagar+Lake'')],
     PDict [(''name'', PStr ''Golconda Fort''), (''address'', PStr ''Ibrahim Bagh, Hyderabad''),
            (''rating'', PFloat (lit (44 / 10))), (''entry_fee'', PInt 35),
            (''visit_duration_mins'', PInt 90),
            (''maps_url'', PStr ''https://maps.google.com/?q=Golconda+Fort'')],
     PDict [(''name'', PStr ''Charminar''), (''address'', PStr ''Charminar, Old City, Hyderabad''),
            (''rating'', PFloat (lit (45 / 10))), (''entry_fee'', PInt 25),
            (''visit_duration_mins'', PInt 60),
            (''maps_url'', PStr ''https://maps.google.com/?q=Charminar+Hyderabad'')],
     PDict [(''name'', PStr ''Lumbini Park''), (''address'', PStr ''Secretariat Road, Hyderabad''),
            (''rating'', PFloat (lit (41 / 10))), (''entry_fee'', PInt 50),
            (''visit_duration_mins'', PInt 60),
            (''maps_url'', PStr ''https://maps.google.com/?q=Lumbini+Park+Hyderabad'')],
     PDict [(''name'', PStr ''Birla Mandir''), (''address'', PStr ''Naubath Pahad, Hyderabad''),
            (''rating'', PFloat (lit (46 / 10))), (''entry_fee'', PInt 0),
            (''visit_duration_mins'', PInt 45),
            (''maps_url'', PStr ''https://maps.google.com/?q=Birla+Mandir+Hyderabad'')],
     PDict [(''name'', PStr ''Inorbit Mall''), (''address'', PStr ''HITEC City, Hyderabad''),
            (''rating'', PFloat (lit (43 / 10))), (''entry_fee'', PInt 0),
            (''visit_duration_mins'', PInt 120),
            (''maps_url'', PStr ''https://maps.google.com/?q=Inorbit+Mall+Hyderabad'')]]"

definition mock_places :: "pyval \<Rightarrow> pyval \<Rightarrow> exc + pyval" where
  "mock_places interests budget =
     and_then (collect (keep_le ''entry_fee'' (py_mul_lit budget (15 / 100))) all_places) (\<lambda>ps.
       Inr (PList (take_slice ps 4)))"

definition place_entry :: "env \<Rightarrow> pyval \<Rightarrow> (string \<times> pyval) list \<Rightarrow> int \<Rightarrow> pyval" where
  "place_entry w area kvs fee = PDict
     [(''name'', lookup_or kvs ''name'' PNone),
      (''address'', lookup_or kvs ''formatted_address'' area),
      (''rating'', lookup_or kvs ''rating'' (PFloat (lit 4))),
      (''entry_fee'', PInt fee),
      (''maps_url'', PStr (''https://www.google.com/maps/place/?q=place_id:''
                           @ py_str w (lookup_or kvs ''place_id'' PNone))),
      (''visit_duration_mins'', PInt 60)]"

text \<open>The body of the \<open>for\<close> loop of \<open>search_places\<close>.\<close>

definition place_step :: "env \<Rightarrow> pyval \<Rightarrow> pyval \<Rightarrow> exc + pyval option" where
  "place_step w area p =
     (case p of
        PDict kvs \<Rightarrow>
          and_then (estimate_entry_fee w (lookup_or kvs ''name'' (PStr []))) (\<lambda>fee.
            Inr (Some (place_entry w area kvs fee)))
      | _ \<Rightarrow> Inl (Exc AttributeError ''get'' [p]))"

definition search_places :: "env \<Rightarrow> pyval \<Rightarrow> pyval \<Rightarrow> pyval \<Rightarrow> pyval \<Rightarrow> exc + pyval" where
  "search_places w interests max_entry_fee area limit =
     (if GOOGLE_API_KEY w = [] then mock_places interests max_entry_fee
      else
        and_then (http_json w) (\<lambda>data.
        and_then (dict_get data ''results'' (PList [])) (\<lambda>found.
        and_then (py_slice_to found limit) (\<lambda>ps.
        and_then (collect (place_step w area) ps) (\<lambda>results.
          if results \<noteq> [] then Inr (PList results)
          else mock_places interests max_entry_fee)))))"


section \<open>Travel\<close>

definition mock_travel :: "pyval \<Rightarrow> pyval \<Rightarrow> pyval" where
  "mock_travel origin destination =
     PDict [(''distance_km'', PFloat (lit 8)),
            (''duration_mins'', PInt 20),
            (''cab_fare_inr'', PInt 130),
            (''mode'', PStr ''Uber/Ola'')]"

definition estimate_cab_fare :: "pyfloat \<Rightarrow> exc + int" where
  "estimate_cab_fare km = int_of_float (float_add_int 50 (float_mul_pos km 12))"

text \<open>The body of the \<open>try\<close> block of \<open>get_travel_info\<close>.\<close>

definition travel_from_response :: "pyval \<Rightarrow> exc + pyval" where
  "travel_from_response data =
     and_then (py_getitem_key data ''rows'') (\<lambda>rows.
     and_then (py_getitem_0 rows) (\<lambda>row.
     and_then (py_getitem_key row ''elements'') (\<lambda>elements.
     and_then (py_getitem_0 elements) (\<lambda>element.
     and_then (py_getitem_key element ''distance'') (\<lambda>distance.
     and_then (py_getitem_key distance ''value'') (\<lambda>metres.
     and_then (py_truediv_int metres 1000) (\<lambda>distance_km.
     and_then (py_getitem_key element ''duration'') (\<lambda>duration.
     and_then (py_getitem_key duration ''value'') (\<lambda>seconds.
     and_then (py_floordiv_int seconds 60) (\<lambda>duration_min.
     and_then (estimate_cab_fare distance_km) (\<lambda>fare.
       Inr (PDict [(''distance_km'', PFloat (float_round1 distance_km)),
                   (''duration_mins'', duration_min),
                   (''cab_fare_inr'', PInt fare),
                   (''mode'', PStr ''Uber/Ola'')]))))))))))))"

definition get_travel_info :: "env \<Rightarrow> pyval \<Rightarrow> pyval \<Rightarrow> exc + pyval" where
  "get_travel_info w origin destination =
     (if GOOGLE_API_KEY w = [] then Inr (mock_travel origin destination)
      else
        and_then (http_json w) (\<lambda>data.
          case travel_from_response data of
            Inr info \<Rightarrow> Inr info
          | Inl e \<Rightarrow> (if exc_class e = KeyError \<or> exc_class e = IndexError
                      then Inr (mock_travel origin destination) else Inl e)))"


section \<open>The dispatcher\<close>

text \<open>
  \<open>f(**tool_input)\<close> binds the keywords to the parameters of \<open>f\<close>: a keyword that names
  no parameter raises \<open>TypeError\<close>, and so does a parameter without default that no
  keyword supplies. \<open>params\<close> lists the parameters with their defaults.
\<close>

definition check_call :: "string \<Rightarrow> (string \<times> pyval option) list \<Rightarrow> (string \<times> pyval) list \<Rightarrow> exc + unit" where
  "check_call f params kwargs =
     (case filter (\<lambda>kv. fst kv \<notin> set (map fst params)) kwargs of
        kv # _ \<Rightarrow> Inl (Exc TypeError f [PStr (fst kv)])
      | [] \<Rightarrow>
        (case filter (\<lambda>p. snd p = None \<and> map_of kwargs (fst p) = None) params of
           [] \<Rightarrow> Inr ()
         | missing \<Rightarrow> Inl (Exc TypeError f (map (PStr \<circ> fst) missing))))"

definition arg :: "(string \<times> pyval) list \<Rightarrow> (string \<times> pyval option) list \<Rightarrow> string \<Rightarrow> pyval" where
  "arg kwargs params name =
     (case map_of kwargs name of Some v \<Rightarrow> v
      | None \<Rightarrow> (case map_of params name of Some (Some d) \<Rightarrow> d | _ \<Rightarrow> PNone))"

definition search_restaurants_params :: "(string \<times> pyval option) list" where
  "search_restaurants_params =
     [(''area'', None), (''max_budget_per_person'', None),
      (''cuisine'', Some (PStr [])), (''limit'', Some (PInt 5))]"

definition search_movies_params :: "(string \<times> pyval option) list" where
  "search_movies_params =
     [(''preferred_genre'', Some (PStr [])), (''max_ticket_price'', Some (PInt 400)),
      (''limit'', Some (PInt 5))]"

definition search_places_params :: "(string \<times> pyval option) list" where
  "search_places_params =
     [(''interests'', Some (PStr ''sightseeing'')), (''max_entry_fee'', Some (PInt 200)),
      (''area'', Some (PStr ''Hyderabad'')), (''limit'', Some (PInt 6))]"

definition get_travel_info_params :: "(string \<times> pyval option) list" where
  "get_travel_info_params = [(''origin'', None), (''destination'', None)]"

text \<open>The body of the \<open>try\<close> block of \<open>execute_tool\<close> up to \<open>result\<close>.\<close>

definition run_tool :: "env \<Rightarrow> string \<Rightarrow> (string \<times> pyval) list \<Rightarrow> exc + pyval" where
  "run_tool w tool_name tool_input =
     (if tool_name = ''search_restaurants'' then
        and_then (check_call tool_name search_restaurants_params tool_input) (\<lambda>_.
          let a = arg tool_input search_restaurants_params
          in search_restaurants w (a ''area'') (a ''max_budget_per_person'') (a ''cuisine'')
               (a ''limit''))
      else if tool_name = ''search_movies'' then
        and_then (check_call tool_name search_movies_params tool_input) (\<lambda>_.
          let a = arg tool_input search_movies_params
          in search_movies w (a ''preferred_genre'') (a ''max_ticket_price'') (a ''limit''))
      else if tool_name = ''search_places'' then
        and_then (check_call tool_name search_places_params tool_input) (\<lambda>_.
          let a = arg tool_input search_places_params
          in search_places w (a ''interests'') (a ''max_entry_fee'') (a ''area'') (a ''limit''))
      else if tool_name = ''get_travel_info'' then
        and_then (check_call tool_name get_travel_info_params tool_input) (\<lambda>_.
          let a = arg tool_input get_travel_info_params
          in get_travel_info w (a ''origin'') (a ''destination''))
      else Inr (PDict [(''error'', PStr (''Unknown tool: '' @ tool_name))]))"

definition execute_tool :: "env \<Rightarrow> string \<Rightarrow> (string \<times> pyval) list \<Rightarrow> string" where
  "execute_tool w tool_name tool_input =
     (case run_tool w tool_name tool_input of
        Inr result \<Rightarrow> json_dumps w False result
      | Inl e \<Rightarrow> json_dumps w True (PDict [(''error'', PStr (str_exc w e))]))"


section \<open>Vocabulary of the properties\<close>

text \<open>The value a result record holds under a field name.\<close>

definition field :: "string \<Rightarrow> pyval \<Rightarrow> pyval option" where
  "field k v = (case v of PDict kvs \<Rightarrow> map_of kvs k | _ \<Rightarrow> None)"

text \<open>A record whose field \<open>key\<close> holds an \<open>int\<close> that is at most \<open>bound\<close>.\<close>

definition at_most :: "string \<Rightarrow> rat \<Rightarrow> pyval \<Rightarrow> bool" where
  "at_most key bound r =
     (case field key r of Some (PInt c) \<Rightarrow> rat_of_int c \<le> bound | _ \<Rightarrow> False)"

text \<open>
  The per-person cost the specification assigns to a place: the table
  \<open>{1:150, 2:350, 3:600, 4:1200}\<close> over its price level, and 350 otherwise.
\<close>

definition table_cost :: "(string \<times> pyval) list \<Rightarrow> int" where
  "table_cost kvs = (case map_of kvs ''price_level'' of
       Some (PInt n) \<Rightarrow> (if n = 1 then 150 else if n = 2 then 350 else if n = 3 then 600
                         else if n = 4 then 1200 else 350)
     | _ \<Rightarrow> 350)"

text \<open>A place whose price level is absent or an \<open>int\<close>.\<close>

definition plain_place :: "(string \<times> pyval) list \<Rightarrow> bool" where
  "plain_place kvs = (case map_of kvs ''price_level'' of
       None \<Rightarrow> True | Some (PInt n) \<Rightarrow> True | _ \<Rightarrow> False)"

definition within_45 :: "int \<Rightarrow> (string \<times> pyval) list \<Rightarrow> bool" where
  "within_45 B kvs = (rat_of_int (table_cost kvs) \<le> 45 / 100 * rat_of_int B)"

definition live_entry :: "env \<Rightarrow> pyval \<Rightarrow> (string \<times> pyval) list \<Rightarrow> pyval" where
  "live_entry w area kvs =
     restaurant_entry w area kvs (lookup_or kvs ''price_level'' (PInt 2)) (table_cost kvs)"

text \<open>
  The live restaurant path as the specification words it: the response list is filtered
  by the budget, the survivors are capped at \<open>limit\<close>, and the mock list is the answer
  when none survives.
\<close>

definition filter_then_cap :: "env \<Rightarrow> pyval \<Rightarrow> int \<Rightarrow> int \<Rightarrow> (string \<times> pyval) list list \<Rightarrow> exc + pyval" where
  "filter_then_cap w area B limit places =
     (let survivors = take (nat limit) (filter (within_45 B) places)
      in if survivors = [] then mock_restaurants area (PInt B)
         else Inr (PList (map (live_entry w area) survivors)))"

text \<open>
  The live restaurant path as the loop is written: the response list is cut at \<open>limit\<close>
  and the places that remain are filtered by the budget.
\<close>

definition cap_then_filter :: "env \<Rightarrow> pyval \<Rightarrow> int \<Rightarrow> int \<Rightarrow> (string \<times> pyval) list list \<Rightarrow> exc + pyval" where
  "cap_then_filter w area B limit places =
     (let survivors = filter (within_45 B) (take_slice places limit)
      in if survivors = [] then mock_restaurants area (PInt B)
         else Inr (PList (map (live_entry w area) survivors)))"

text \<open>
  Paths into a response document, followed by the chained subscripts \<open>v[s1][s2]...\<close>:
  \<open>Key k\<close> is the subscript \<open>[k]\<close> with a string and \<open>First\<close> is \<open>[0]\<close>.
\<close>

datatype step = Key string | First

fun follow :: "step list \<Rightarrow> pyval \<Rightarrow> exc + pyval" where
  "follow [] v = Inr v"
| "follow (Key k # path) v = and_then (py_getitem_key v k) (follow path)"
| "follow (First # path) v = and_then (py_getitem_0 v) (follow path)"

text \<open>
  \<open>absent_at\<close> describes the documents in which something on the path is missing: the
  path runs into a \<open>dict\<close> without the next key, into a \<open>dict\<close> where \<open>[0]\<close> is taken
  (a JSON object has no key \<open>0\<close>), or into an empty \<open>list\<close> or an empty \<open>str\<close> where
  \<open>[0]\<close> is taken. \<open>value_at\<close> is the value the path leads to, if it leads to one. A
  path that does neither has met a value that does not take the subscript: \<open>None\<close>, a
  number, a \<open>list\<close> or a \<open>str\<close> under a string key, \<open>None\<close> or a number under \<open>[0]\<close>.
\<close>

fun absent_at :: "step list \<Rightarrow> pyval \<Rightarrow> bool" where
  "absent_at (Key k # path) (PDict kvs) =
     (case map_of kvs k of None \<Rightarrow> True | Some v \<Rightarrow> absent_at path v)"
| "absent_at (First # path) (PDict kvs) = True"
| "absent_at (First # path) (PList []) = True"
| "absent_at (First # path) (PList (x # xs)) = absent_at path x"
| "absent_at (First # path) (PStr s) =
     (case utf8_chars s of [] \<Rightarrow> True | c # _ \<Rightarrow> absent_at path (PStr c))"
| "absent_at path v = False"

fun value_at :: "step list \<Rightarrow> pyval \<Rightarrow> pyval option" where
  "value_at [] v = Some v"
| "value_at (Key k # path) (PDict kvs) =
     (case map_of kvs k of None \<Rightarrow> None | Some v \<Rightarrow> value_at path v)"
| "value_at (First # path) (PList (x # xs)) = value_at path x"
| "value_at (First # path) (PStr s) =
     (case utf8_chars s of [] \<Rightarrow> None | c # _ \<Rightarrow> value_at path (PStr c))"
| "value_at path v = None"

definition distance_path :: "step list" where
  "distance_path = [Key ''rows'', First, Key ''elements'', First, Key ''distance'', Key ''value'']"

definition duration_path :: "step list" where
  "duration_path = [Key ''rows'', First, Key ''elements'', First, Key ''duration'', Key ''value'']"

text \<open>
  A distance that \<open>/ 1000\<close> turns into a \<open>float\<close>: an \<open>int\<close> whose quotient is within the
  range of binary64, a \<open>bool\<close> or a \<open>float\<close>.
\<close>

definition is_distance :: "pyval \<Rightarrow> bool" where
  "is_distance v = (case v of
       PInt m \<Rightarrow> \<bar>rnd (of_int m / 1000)\<bar> < 2 ^ 1024
     | PBool b \<Rightarrow> True
     | PFloat f \<Rightarrow> True
     | _ \<Rightarrow> False)"

text \<open>
  The responses with a missing field, in the order in which \<open>get_travel_info\<close> reads
  them: something is missing on the way to the distance, or the distance is there and
  something is missing on the way to the duration.
\<close>

definition missing_field :: "pyval \<Rightarrow> bool" where
  "missing_field data =
     (absent_at distance_path data
      \<or> (case value_at distance_path data of
            Some metres \<Rightarrow> is_distance metres \<and> absent_at duration_path data
          | None \<Rightarrow> False))"

text \<open>The record \<open>get_travel_info\<close> builds from a response.\<close>

definition travel_record :: "pyfloat \<Rightarrow> pyval \<Rightarrow> int \<Rightarrow> pyval" where
  "travel_record km mins fare =
     PDict [(''distance_km'', PFloat km), (''duration_mins'', mins),
            (''cab_fare_inr'', PInt fare), (''mode'', PStr ''Uber/Ola'')]"

text \<open>The parameter lists of the four tools, by tool name.\<close>

definition tool_params :: "(string \<times> (string \<times> pyval option) list) list" where
  "tool_params =
     [(''search_restaurants'', search_restaurants_params),
      (''search_movies'', search_movies_params),
      (''search_places'', search_places_params),
      (''get_travel_info'', get_travel_info_params)]"

text \<open>
  Environments for the examples: a credential state and a response. Their character
  table is the empty one, which leaves a character as it is.
\<close>

definition plain_text :: "'a \<Rightarrow> string" where
  "plain_text x = ''?''"

definition no_table :: "string list \<Rightarrow> string \<Rightarrow> string list \<Rightarrow> string" where
  "no_table seen c rest = c"

definition offline :: env where
  "offline = \<lparr>GOOGLE_API_KEY = [], SERPAPI_KEY = [],
      http_json = Inl (Exc OtherError ''get'' []),
      str_exc = plain_text, repr_val = plain_text, unicode_lower = no_table\<rparr>"

definition online :: "pyval \<Rightarrow> env" where
  "online response = \<lparr>GOOGLE_API_KEY = ''key'', SERPAPI_KEY = ''key'',
      http_json = Inr response,
      str_exc = plain_text, repr_val = plain_text, unicode_lower = no_table\<rparr>"


section \<open>Properties of the rounding\<close>

text \<open>
  The facts about \<open>rnd\<close> that the budget tests need: it is within half a unit in the
  last place of its argument, exact on the integers below \<open>2 ^ 53\<close>, and keeps the sign.
\<close>


lemma rhe_err: "\<bar>of_int (rhe y) - y\<bar> \<le> 1 / 2"
proof -
  have "of_int \<lfloor>y\<rfloor> \<le> y" "y < of_int \<lfloor>y\<rfloor> + 1" by linarith+
  then show ?thesis
    by (auto simp: rhe_def Let_def abs_le_iff)
qed

lemma rhe_of_int: "rhe (of_int n) = n"
  by (simp add: rhe_def)

lemma rnd_0: "rnd 0 = 0"
  by (simp add: rnd_def rhe_def)

lemma binade_lower:
  assumes "x \<noteq> 0"
  shows "2 powi binade x \<le> \<bar>x\<bar>"
proof (cases "1 \<le> \<bar>x\<bar>")
  case True
  define n where "n = \<lfloor>\<bar>x\<bar>\<rfloor>"
  have n: "0 < n" using True by (simp add: n_def)
  from bitlen_bounds [OF n] have b: "2 ^ nat (bitlen n - 1) \<le> n" by simp
  have "bitlen n \<noteq> 0" using n by (simp add: bitlen_eq_zero_iff)
  then have "0 < bitlen n" using bitlen_nonneg [of n] by simp
  then have "(2::rat) powi (bitlen n - 1) = 2 ^ nat (bitlen n - 1)"
    by (simp add: power_int_def)
  also have "\<dots> = of_int (2 ^ nat (bitlen n - 1))" by simp
  also have "\<dots> \<le> of_int n" using b by (simp only: of_int_le_iff)
  also have "\<dots> \<le> \<bar>x\<bar>" by (simp add: n_def)
  finally show ?thesis using True by (simp add: binade_def n_def)
next
  case False
  define a where "a = \<bar>x\<bar>"
  have a: "0 < a" "a < 1" using assms False by (auto simp: a_def)
  define m where "m = \<lceil>1 / a\<rceil> - 1"
  have "1 < 1 / a" using a by simp
  then have m: "0 < m" unfolding m_def by linarith
  define N where "N = nat (bitlen m)"
  from bitlen_bounds [OF m] have "m < 2 ^ N" by (simp add: N_def)
  then have "\<lceil>1 / a\<rceil> \<le> 2 ^ N" by (simp add: m_def)
  then have "1 / a \<le> 2 ^ N" by (simp add: ceiling_le_iff)
  then have "1 \<le> 2 ^ N * a" using a by (simp add: field_simps)
  then have "1 / 2 ^ N \<le> a" by (simp add: field_simps)
  moreover have "0 \<le> bitlen m" by (simp add: bitlen_nonneg)
  then have "(2::rat) powi (- bitlen m) = 1 / 2 ^ N"
    by (simp add: power_int_def N_def field_simps)
  ultimately show ?thesis using False by (simp add: binade_def a_def m_def)
qed

lemma binade_upper:
  assumes "x \<noteq> 0"
  shows "\<bar>x\<bar> < 2 powi (binade x + 1)"
proof (cases "1 \<le> \<bar>x\<bar>")
  case True
  define n where "n = \<lfloor>\<bar>x\<bar>\<rfloor>"
  have n: "0 < n" using True by (simp add: n_def)
  from bitlen_bounds [OF n] have "n + 1 \<le> 2 ^ nat (bitlen n)" by simp
  then have "rat_of_int (n + 1) \<le> rat_of_int (2 ^ nat (bitlen n))" by (simp only: of_int_le_iff)
  then have "rat_of_int n + 1 \<le> 2 ^ nat (bitlen n)" by simp
  moreover have "\<bar>x\<bar> < rat_of_int n + 1" unfolding n_def by linarith
  moreover have "(2::rat) powi (bitlen n - 1 + 1) = 2 ^ nat (bitlen n)"
    using bitlen_nonneg [of n] by (simp add: power_int_def)
  ultimately show ?thesis using True by (simp add: binade_def n_def)
next
  case False
  define a where "a = \<bar>x\<bar>"
  have a: "0 < a" "a < 1" using assms False by (auto simp: a_def)
  define m where "m = \<lceil>1 / a\<rceil> - 1"
  have "1 < 1 / a" using a by simp
  then have m: "0 < m" unfolding m_def by linarith
  have "bitlen m \<noteq> 0" using m by (simp add: bitlen_eq_zero_iff)
  then have bl: "0 < bitlen m" using bitlen_nonneg [of m] by simp
  define N where "N = nat (bitlen m - 1)"
  from bitlen_bounds [OF m] have "2 ^ N \<le> m" by (simp add: N_def)
  then have "rat_of_int (2 ^ N) \<le> rat_of_int m" by (simp only: of_int_le_iff)
  then have "2 ^ N \<le> rat_of_int m" by simp
  moreover have "rat_of_int m < 1 / a" unfolding m_def by linarith
  ultimately have "2 ^ N < 1 / a" by (rule le_less_trans)
  then have "2 ^ N * a < 1" using a by (simp add: field_simps)
  then have "a < 1 / 2 ^ N" by (simp add: field_simps)
  moreover have "(2::rat) powi (- bitlen m + 1) = 1 / 2 ^ N"
  proof -
    have "- bitlen m + 1 = - int N" using bl by (simp add: N_def)
    then have "(2::rat) powi (- bitlen m + 1) = 2 powi (- int N)" by (simp only:)
    also have "\<dots> = 1 / 2 ^ N" by (simp add: power_int_minus field_simps)
    finally show ?thesis .
  qed
  ultimately show ?thesis using False by (simp add: binade_def a_def m_def)
qed

lemma rnd_err:
  assumes "2 powi (- 1022) \<le> \<bar>x\<bar>"
  shows "\<bar>rnd x - x\<bar> \<le> \<bar>x\<bar> / 2 ^ 53"
proof -
  have x0: "x \<noteq> 0"
  proof
    assume "x = 0"
    with assms have "(2::rat) powi (- 1022) \<le> 0" by simp
    moreover have "(0::rat) < 2 powi (- 1022)" by (rule zero_less_power_int) simp
    ultimately show False by simp
  qed
  define e where "e = max (binade x) (- 1022)"
  define u :: rat where "u = 2 powi (e - 52)"
  have u: "0 < u" unfolding u_def by (rule zero_less_power_int) simp
  have ue: "u * 2 ^ 52 = 2 powi e"
    unfolding u_def by (simp add: power_int_diff)
  have "2 powi e \<le> \<bar>x\<bar>"
    using binade_lower [OF x0] assms by (auto simp: e_def max_def)
  then have ux: "u * 2 ^ 52 \<le> \<bar>x\<bar>" by (simp only: ue)
  have "rnd x - x = (of_int (rhe (x / u)) - x / u) * u"
    using u by (simp add: rnd_def e_def u_def Let_def field_simps)
  then have "\<bar>rnd x - x\<bar> = \<bar>of_int (rhe (x / u)) - x / u\<bar> * u"
    using u by (simp add: abs_mult)
  also have "\<dots> \<le> (1 / 2) * u"
    using rhe_err [of "x / u"] u by (intro mult_right_mono) auto
  also have "\<dots> \<le> \<bar>x\<bar> / 2 ^ 53" using ux by simp
  finally show ?thesis .
qed

lemma rnd_int_exact:
  assumes "\<bar>n\<bar> < 2 ^ 53"
  shows "rnd (of_int n) = of_int n"
proof (cases "n = 0")
  case True
  then show ?thesis by (simp add: rnd_0)
next
  case False
  define x :: rat where "x = of_int n"
  have x0: "x \<noteq> 0" using False by (simp add: x_def)
  define e where "e = max (binade x) (- 1022)"
  have "(2::rat) powi binade x \<le> \<bar>x\<bar>" by (rule binade_lower [OF x0])
  also have "\<bar>x\<bar> < 2 ^ 53"
  proof -
    have "\<bar>x\<bar> = of_int \<bar>n\<bar>" by (simp add: x_def)
    also have "\<dots> < of_int (2 ^ 53)" using assms by (simp only: of_int_less_iff)
    finally show ?thesis by simp
  qed
  finally have "(2::rat) powi binade x < 2 powi 53" by simp
  then have "binade x < 53" by (rule power_int_le_imp_less_exp [rotated]) simp_all
  then have e: "e \<le> 52" by (simp add: e_def)
  define k where "k = nat (52 - e)"
  have u: "(2::rat) powi (e - 52) = 1 / 2 ^ k"
    using e by (simp add: power_int_def k_def field_simps)
  have "x / (1 / 2 ^ k) = of_int (n * 2 ^ k)" by (simp add: x_def)
  then have "rhe (x / (1 / 2 ^ k)) = n * 2 ^ k" by (simp only: rhe_of_int)
  then have "rnd x = of_int (n * 2 ^ k) * (1 / 2 ^ k)"
    by (simp add: rnd_def e_def [symmetric] u Let_def)
  then show ?thesis by (simp add: x_def)
qed



lemma tiny_le: "(2::rat) powi (- 1022) \<le> 1 / 64"
proof -
  have "(2::rat) powi (- 1022) \<le> 2 powi (- 6)"
    by (rule power_int_increasing) simp_all
  also have "\<dots> = 1 / 64" by (simp add: power_int_minus)
  finally show ?thesis .
qed

lemma rnd_pos_bounds:
  assumes "1 / 64 \<le> x"
  shows "x * (1 - 1 / 2 ^ 53) \<le> rnd x" and "rnd x \<le> x * (1 + 1 / 2 ^ 53)"
proof -
  have "2 powi (- 1022) \<le> \<bar>x\<bar>" using assms tiny_le by linarith
  from rnd_err [OF this] have "\<bar>rnd x - x\<bar> \<le> x / 2 ^ 53" using assms by simp
  then have "x - x / 2 ^ 53 \<le> rnd x" "rnd x \<le> x + x / 2 ^ 53" by linarith+
  then show "x * (1 - 1 / 2 ^ 53) \<le> rnd x" and "rnd x \<le> x * (1 + 1 / 2 ^ 53)"
    by (simp_all add: algebra_simps)
qed

lemma rnd_neg_bound:
  assumes "x \<le> - (1 / 64)"
  shows "rnd x \<le> x * (1 - 1 / 2 ^ 53)"
proof -
  have "2 powi (- 1022) \<le> \<bar>x\<bar>" using assms tiny_le by linarith
  from rnd_err [OF this] have "\<bar>rnd x - x\<bar> \<le> - x / 2 ^ 53" using assms by simp
  then have "rnd x \<le> x - x / 2 ^ 53" by linarith
  then show ?thesis by (simp add: algebra_simps)
qed

lemma rhe_nonneg: "0 \<le> y \<Longrightarrow> 0 \<le> rhe y"
  by (auto simp: rhe_def Let_def)

lemma rhe_nonpos: "y \<le> 0 \<Longrightarrow> rhe y \<le> 0"
proof -
  assume y: "y \<le> 0"
  show ?thesis
  proof (cases "y = 0")
    case True then show ?thesis by (simp add: rhe_def)
  next
    case False
    with y have "y < 0" by simp
    then have "\<lfloor>y\<rfloor> \<le> - 1" by (simp add: floor_le_iff)
    then show ?thesis by (auto simp: rhe_def Let_def)
  qed
qed

lemma rnd_nonneg: "0 \<le> x \<Longrightarrow> 0 \<le> rnd x"
  by (simp add: rnd_def Let_def rhe_nonneg zero_le_mult_iff)

text \<open>The rounded product of an int and a literal, against the exact product.\<close>

lemma product_lower:
  assumes B: "1 \<le> B" and c: "1 / 8 \<le> c"
  shows "c * of_int B * (1 - 1 / 2 ^ 53) ^ 3 \<le> rnd (rnd (of_int B) * rnd c)"
proof -
  define E :: rat where "E = 1 - 1 / 2 ^ 53"
  have E: "0 < E" "1 / 2 \<le> E" by (simp_all add: E_def)
  have Bq: "(1::rat) \<le> of_int B" using B by simp
  have b0: "0 \<le> rnd (of_int B)" using Bq by (intro rnd_nonneg) linarith
  have c0: "0 \<le> rnd c" using c by (intro rnd_nonneg) linarith
  have b: "of_int B * E \<le> rnd (of_int B)"
    using rnd_pos_bounds(1) [of "of_int B"] Bq by (simp add: E_def)
  have cr: "c * E \<le> rnd c" using rnd_pos_bounds(1) [of c] c by (simp add: E_def)
  have "1 * (1 / 2) \<le> of_int B * E" using Bq E by (intro mult_mono) auto
  moreover have "(1 / 8) * (1 / 2) \<le> c * E" using c E by (intro mult_mono) auto
  ultimately have "(1 / 2) * (1 / 16) \<le> (of_int B * E) * (c * E)"
    by (intro mult_mono) auto
  also have x: "(of_int B * E) * (c * E) \<le> rnd (of_int B) * rnd c"
    using b cr b0 c0 Bq c E by (intro mult_mono) auto
  finally have "1 / 64 \<le> rnd (of_int B) * rnd c" by simp
  from rnd_pos_bounds(1) [OF this]
  have "rnd (of_int B) * rnd c * E \<le> rnd (rnd (of_int B) * rnd c)" by (simp add: E_def)
  moreover have "(of_int B * E) * (c * E) * E \<le> rnd (of_int B) * rnd c * E"
    using x E by (intro mult_right_mono) auto
  ultimately have "(of_int B * E) * (c * E) * E \<le> rnd (rnd (of_int B) * rnd c)" by linarith
  then show ?thesis by (simp add: E_def power3_eq_cube mult_ac)
qed

lemma product_upper:
  assumes B: "1 \<le> B" and c: "1 / 8 \<le> c"
  shows "rnd (rnd (of_int B) * rnd c) \<le> c * of_int B * (1 + 1 / 2 ^ 53) ^ 3"
proof -
  define E :: rat where "E = 1 - 1 / 2 ^ 53"
  define F :: rat where "F = 1 + 1 / 2 ^ 53"
  have E: "0 < E" "1 / 2 \<le> E" by (simp_all add: E_def)
  have F: "0 < F" by (simp add: F_def)
  have Bq: "(1::rat) \<le> of_int B" using B by simp
  have b0: "0 \<le> rnd (of_int B)" using Bq by (intro rnd_nonneg) linarith
  have c0: "0 \<le> rnd c" using c by (intro rnd_nonneg) linarith
  have b: "of_int B * E \<le> rnd (of_int B)" "rnd (of_int B) \<le> of_int B * F"
    using rnd_pos_bounds [of "of_int B"] Bq by (simp_all add: E_def F_def)
  have cr: "c * E \<le> rnd c" "rnd c \<le> c * F" using rnd_pos_bounds [of c] c by (simp_all add: E_def F_def)
  have "1 * (1 / 2) \<le> of_int B * E" using Bq E by (intro mult_mono) auto
  moreover have "(1 / 8) * (1 / 2) \<le> c * E" using c E by (intro mult_mono) auto
  ultimately have "(1 / 2) * (1 / 16) \<le> (of_int B * E) * (c * E)"
    by (intro mult_mono) auto
  also have "(of_int B * E) * (c * E) \<le> rnd (of_int B) * rnd c"
    using b cr b0 c0 Bq c E by (intro mult_mono) auto
  finally have "1 / 64 \<le> rnd (of_int B) * rnd c" by simp
  from rnd_pos_bounds(2) [OF this]
  have "rnd (rnd (of_int B) * rnd c) \<le> rnd (of_int B) * rnd c * F" by (simp add: F_def)
  moreover have "rnd (of_int B) * rnd c \<le> (of_int B * F) * (c * F)"
    using b cr b0 c0 Bq c F by (intro mult_mono) auto
  then have "rnd (of_int B) * rnd c * F \<le> (of_int B * F) * (c * F) * F"
    using F by (intro mult_right_mono) auto
  ultimately have "rnd (rnd (of_int B) * rnd c) \<le> (of_int B * F) * (c * F) * F" by linarith
  then show ?thesis by (simp add: F_def power3_eq_cube mult_ac)
qed

lemma product_neg:
  assumes B: "B \<le> - 1" and c: "1 / 8 \<le> c"
  shows "rnd (rnd (of_int B) * rnd c) < 0"
proof -
  define E :: rat where "E = 1 - 1 / 2 ^ 53"
  have E: "0 < E" "1 / 2 \<le> E" by (simp_all add: E_def)
  have Bq: "of_int B \<le> (- 1::rat)" using B by (metis of_int_le_iff of_int_minus of_int_1)
  have "rnd (of_int B) \<le> of_int B * E"
    using rnd_neg_bound [of "of_int B"] Bq by (simp add: E_def)
  also have "\<dots> \<le> (- 1) * E" using Bq E by (intro mult_right_mono) auto
  also have "\<dots> \<le> - (1 / 2)" using E by simp
  finally have b: "rnd (of_int B) \<le> - (1 / 2)" .
  have "1 / 8 * (1 / 2) \<le> c * E" using c E by (intro mult_mono) auto
  also have "\<dots> \<le> rnd c" using rnd_pos_bounds(1) [of c] c by (simp add: E_def)
  finally have cr: "1 / 16 \<le> rnd c" by simp
  have "(1 / 2) * (1 / 16) \<le> (- rnd (of_int B)) * rnd c"
    using b cr by (intro mult_mono) auto
  then have "rnd (of_int B) * rnd c \<le> - (1 / 64)" by simp
  define p where "p = rnd (of_int B) * rnd c"
  with \<open>rnd (of_int B) * rnd c \<le> - (1 / 64)\<close> have x: "p \<le> - (1 / 64)" by simp
  from rnd_neg_bound [OF x] have "rnd p \<le> p * E" by (simp add: E_def)
  also have "\<dots> < 0" using x E by (intro mult_neg_pos) auto
  finally show ?thesis by (simp add: p_def)
qed


section \<open>Budget tests in binary64 and in exact arithmetic\<close>

text \<open>
  The test \<open>k <= B * c\<close> on the rounded product of an \<open>int\<close> budget and a literal agrees
  with the exact comparison whenever \<open>k\<close> is not within \<open>1/32\<close> of the exact product, and
  at the exact boundary of the factor \<open>0.5\<close>.
\<close>

lemma and_then_simps [simp]:
  "and_then (Inl e) f = Inl e"
  "and_then (Inr v) f = f v"
  by (simp_all add: and_then_def)

lemma float_le_fl:
  assumes "\<bar>a\<bar> < 2 ^ 1024"
  shows "float_le (Finite a) (fl x) = (a \<le> rnd x)"
  using assms by (auto simp: fl_def Let_def)

lemma float_lt_fl:
  assumes "\<bar>a\<bar> < 2 ^ 1024"
  shows "float_lt (fl x) (Finite a) = (rnd x < a)"
  using assms by (auto simp: fl_def Let_def)

lemma threshold:
  assumes k: "0 < k" "k \<le> 2 ^ 20" and c: "1 / 8 \<le> c"
    and gap: "1 / 32 \<le> \<bar>rat_of_int k - c * rat_of_int B\<bar>"
  shows "(rat_of_int k \<le> rnd (rnd (of_int B) * rnd c)) = (rat_of_int k \<le> c * rat_of_int B)"
proof (cases "rat_of_int k \<le> c * rat_of_int B")
  case True
  with gap have g: "rat_of_int k + 1 / 32 \<le> c * rat_of_int B" by linarith
  have "rat_of_int k \<le> rat_of_int (2 ^ 20)" using k(2) by (simp only: of_int_le_iff)
  then have kq: "(0::rat) < of_int k" "rat_of_int k \<le> 2 ^ 20" using k(1) by simp_all
  have "1 \<le> B"
  proof (rule ccontr)
    assume "\<not> 1 \<le> B"
    then have "rat_of_int B \<le> 0" by simp
    with c have "c * rat_of_int B \<le> 0" by (simp add: mult_le_0_iff)
    with g kq show False by linarith
  qed
  from product_lower [OF this c]
  have "c * rat_of_int B * (1 - 1 / 2 ^ 53) ^ 3 \<le> rnd (rnd (of_int B) * rnd c)" .
  moreover have "(rat_of_int k + 1 / 32) * (1 - 1 / 2 ^ 53) ^ 3 \<le> c * rat_of_int B * (1 - 1 / 2 ^ 53) ^ 3"
    using g by (intro mult_right_mono) auto
  moreover have "rat_of_int k \<le> (rat_of_int k + 1 / 32) * (1 - 1 / 2 ^ 53) ^ 3"
  proof -
    define E3 :: rat where "E3 = (1 - 1 / 2 ^ 53) ^ 3"
    have e3: "0 \<le> 1 - E3" "2 ^ 20 * (1 - E3) \<le> E3 / 32"
      by (simp_all add: E3_def power3_eq_cube)
    have "rat_of_int k * (1 - E3) \<le> 2 ^ 20 * (1 - E3)"
      using kq(2) e3(1) by (rule mult_right_mono)
    then have "rat_of_int k \<le> (rat_of_int k + 1 / 32) * E3"
      using e3(2) by (simp add: algebra_simps)
    then show ?thesis by (simp only: E3_def)
  qed
  ultimately show ?thesis using True by linarith
next
  case False
  with gap have g: "c * rat_of_int B \<le> rat_of_int k - 1 / 32" by linarith
  have "rat_of_int k \<le> rat_of_int (2 ^ 20)" using k(2) by (simp only: of_int_le_iff)
  then have kq: "(0::rat) < of_int k" "rat_of_int k \<le> 2 ^ 20" using k(1) by simp_all
  have "rnd (rnd (of_int B) * rnd c) < rat_of_int k"
  proof -
    consider "B \<le> - 1" | "B = 0" | "1 \<le> B" by linarith
    then show ?thesis
    proof cases
      case 1
      from product_neg [OF this c] kq show ?thesis by linarith
    next
      case 2
      then show ?thesis using kq by (simp add: rnd_0)
    next
      case 3
      from product_upper [OF this c]
      have "rnd (rnd (of_int B) * rnd c) \<le> c * rat_of_int B * (1 + 1 / 2 ^ 53) ^ 3" .
      moreover have "c * rat_of_int B * (1 + 1 / 2 ^ 53) ^ 3 \<le> (rat_of_int k - 1 / 32) * (1 + 1 / 2 ^ 53) ^ 3"
        using g by (intro mult_right_mono) auto
      moreover have "(rat_of_int k - 1 / 32) * (1 + 1 / 2 ^ 53) ^ 3 < rat_of_int k"
      proof -
        define F3 :: rat where "F3 = (1 + 1 / 2 ^ 53) ^ 3"
        have f3: "0 \<le> F3 - 1" "2 ^ 20 * (F3 - 1) < F3 / 32"
          by (simp_all add: F3_def power3_eq_cube)
        have "rat_of_int k * (F3 - 1) \<le> 2 ^ 20 * (F3 - 1)"
          using kq(2) f3(1) by (rule mult_right_mono)
        then have "(rat_of_int k - 1 / 32) * F3 < rat_of_int k"
          using f3(2) by (simp add: algebra_simps)
        then show ?thesis by (simp only: F3_def)
      qed
      ultimately show ?thesis by linarith
    qed
  qed
  then show ?thesis using False by simp
qed

lemma rnd_half: "rnd (1 / 2) = 1 / 2"
  by code_simp

lemma threshold_half:
  assumes k: "0 < k" "k \<le> 2 ^ 20"
  shows "(rat_of_int k \<le> rnd (rnd (of_int B) * rnd (1 / 2))) = (2 * k \<le> B)"
proof (cases "B = 2 * k")
  case True
  have "\<bar>B\<bar> < 2 ^ 53" "\<bar>k\<bar> < 2 ^ 53" using k True by simp_all
  then have "rnd (of_int B) = of_int B" "rnd (of_int k) = of_int k" by (simp_all add: rnd_int_exact)
  moreover have "rat_of_int B * (1 / 2) = of_int k" using True by simp
  ultimately show ?thesis using True by (simp add: rnd_half)
next
  case False
  then have "1 \<le> \<bar>2 * k - B\<bar>" by simp
  then have "1 \<le> \<bar>rat_of_int (2 * k - B)\<bar>" by (metis of_int_abs of_int_1_le_iff)
  then have "1 / 32 \<le> \<bar>rat_of_int k - 1 / 2 * rat_of_int B\<bar>" by (simp add: abs_if split: if_splits)
  from threshold [OF k _ this]
  have "(rat_of_int k \<le> rnd (rnd (of_int B) * rnd (1 / 2))) = (rat_of_int k \<le> 1 / 2 * rat_of_int B)" by simp
  also have "\<dots> = (rat_of_int (2 * k) \<le> rat_of_int B)" by auto
  also have "\<dots> = (2 * k \<le> B)" by (rule of_int_le_iff)
  finally show ?thesis .
qed

lemma threshold_zero:
  assumes c: "1 / 8 \<le> c"
  shows "(0 \<le> rnd (rnd (of_int B) * rnd c)) = (0 \<le> B)"
proof (cases "0 \<le> B")
  case True
  then have "0 \<le> rnd (rat_of_int B)" by (intro rnd_nonneg) simp
  moreover have "0 \<le> rnd c" using c by (intro rnd_nonneg) linarith
  ultimately have "0 \<le> rnd (of_int B) * rnd c" by (rule mult_nonneg_nonneg)
  then have "0 \<le> rnd (rnd (of_int B) * rnd c)" by (rule rnd_nonneg)
  then show ?thesis using True by simp
next
  case False
  then have "B \<le> - 1" by simp
  from product_neg [OF this c] show ?thesis using False by simp
qed


section \<open>Operators on an int budget, loops and slices\<close>

lemma rnd_int_fits:
  assumes "\<bar>B\<bar> \<le> 2 ^ 1023"
  shows "\<bar>rnd (rat_of_int B)\<bar> < 2 ^ 1024"
proof (cases "B = 0")
  case True
  then show ?thesis by (simp add: rnd_0)
next
  case False
  then have "1 \<le> \<bar>B\<bar>" by simp
  then have "rat_of_int 1 \<le> rat_of_int \<bar>B\<bar>" by (simp only: of_int_le_iff)
  then have one: "1 \<le> \<bar>rat_of_int B\<bar>" by simp
  have "rat_of_int \<bar>B\<bar> \<le> rat_of_int (2 ^ 1023)" using assms by (simp only: of_int_le_iff)
  then have up: "\<bar>rat_of_int B\<bar> \<le> 2 ^ 1023" by simp
  have "2 powi (- 1022) \<le> \<bar>rat_of_int B\<bar>" using one tiny_le by linarith
  from rnd_err [OF this]
  have "\<bar>rnd (rat_of_int B)\<bar> \<le> \<bar>rat_of_int B\<bar> + \<bar>rat_of_int B\<bar> / 2 ^ 53" by linarith
  also have "\<dots> \<le> 2 ^ 1023 + 2 ^ 1023 / 2 ^ 53" using up by (intro add_mono divide_right_mono) auto
  also have "\<dots> < 2 ^ 1024" by simp
  finally show ?thesis .
qed

lemma py_mul_lit_int:
  "py_mul_lit (PInt B) c =
     (if 2 ^ 1024 \<le> \<bar>rnd (rat_of_int B)\<bar> then Inl (Exc OverflowError ''*'' [PInt B])
      else Inr (PFloat (fl (rnd (rat_of_int B) * rnd c))))"
  by (simp add: py_mul_lit_def float_of_int_def Let_def)

lemma py_le_int_fl:
  assumes "\<bar>k\<bar> \<le> 2 ^ 20"
  shows "py_le (PInt k) (PFloat (fl x)) = Inr (rat_of_int k \<le> rnd x)"
proof -
  have "rat_of_int \<bar>k\<bar> \<le> rat_of_int (2 ^ 20)" using assms by (simp only: of_int_le_iff)
  then have "\<bar>rat_of_int k\<bar> < 2 ^ 1024" by simp
  then show ?thesis by (simp add: py_le_def float_le_fl)
qed

lemma py_gt_int_fl:
  assumes "\<bar>k\<bar> \<le> 2 ^ 20"
  shows "py_gt (PInt k) (PFloat (fl x)) = Inr (\<not> rat_of_int k \<le> rnd x)"
proof -
  have "rat_of_int \<bar>k\<bar> \<le> rat_of_int (2 ^ 20)" using assms by (simp only: of_int_le_iff)
  then have "\<bar>rat_of_int k\<bar> < 2 ^ 1024" by simp
  then show ?thesis by (simp add: py_gt_def float_lt_fl not_le)
qed

lemma threshold_45:
  assumes k: "0 < k" "k \<le> 2 ^ 20" and m: "(20 * k) mod 9 \<noteq> 0"
  shows "(rat_of_int k \<le> rnd (rnd (of_int B) * rnd (9 / 20))) = (20 * k \<le> 9 * B)"
proof -
  have "20 * k \<noteq> 9 * B" using m by presburger
  then have "1 \<le> \<bar>20 * k - 9 * B\<bar>" by simp
  then have "rat_of_int 1 \<le> rat_of_int \<bar>20 * k - 9 * B\<bar>" by (simp only: of_int_le_iff)
  then have "1 \<le> \<bar>20 * rat_of_int k - 9 * rat_of_int B\<bar>" by simp
  then have "1 / 32 \<le> \<bar>rat_of_int k - 9 / 20 * rat_of_int B\<bar>" by (simp add: abs_if split: if_splits)
  from threshold [OF k _ this]
  have "(rat_of_int k \<le> rnd (rnd (of_int B) * rnd (9 / 20))) = (rat_of_int k \<le> 9 / 20 * rat_of_int B)"
    by simp
  also have "\<dots> = (rat_of_int (20 * k) \<le> rat_of_int (9 * B))" by auto
  also have "\<dots> = (20 * k \<le> 9 * B)" by (rule of_int_le_iff)
  finally show ?thesis .
qed

lemma threshold_15:
  assumes k: "0 \<le> k" "k \<le> 2 ^ 20" and m: "k = 0 \<or> (20 * k) mod 3 \<noteq> 0"
  shows "(rat_of_int k \<le> rnd (rnd (of_int B) * rnd (3 / 20))) = (20 * k \<le> 3 * B)"
proof (cases "k = 0")
  case True
  have "(0 \<le> rnd (rnd (of_int B) * rnd (3 / 20))) = (0 \<le> B)" by (rule threshold_zero) simp
  then show ?thesis using True by simp
next
  case False
  then have k0: "0 < k" using k by simp
  have "20 * k \<noteq> 3 * B" using m False by presburger
  then have "1 \<le> \<bar>20 * k - 3 * B\<bar>" by simp
  then have "rat_of_int 1 \<le> rat_of_int \<bar>20 * k - 3 * B\<bar>" by (simp only: of_int_le_iff)
  then have "1 \<le> \<bar>20 * rat_of_int k - 3 * rat_of_int B\<bar>" by simp
  then have "1 / 32 \<le> \<bar>rat_of_int k - 3 / 20 * rat_of_int B\<bar>" by (simp add: abs_if split: if_splits)
  from threshold [OF k0 k(2) _ this]
  have "(rat_of_int k \<le> rnd (rnd (of_int B) * rnd (3 / 20))) = (rat_of_int k \<le> 3 / 20 * rat_of_int B)"
    by simp
  also have "\<dots> = (rat_of_int (20 * k) \<le> rat_of_int (3 * B))" by auto
  also have "\<dots> = (20 * k \<le> 3 * B)" by (rule of_int_le_iff)
  finally show ?thesis .
qed

lemma collect_pure:
  assumes "\<forall>x\<in>set xs. body x = Inr (if P x then Some (f x) else None)"
  shows "collect body xs = Inr (map f (filter P xs))"
  using assms by (induction xs) simp_all

lemma collect_all:
  assumes "collect body xs = Inr ys" and "\<forall>x\<in>set xs. \<forall>y. body x = Inr (Some y) \<longrightarrow> Q y"
  shows "\<forall>y\<in>set ys. Q y"
  using assms
proof (induction xs arbitrary: ys)
  case Nil
  then show ?case by simp
next
  case (Cons x xs)
  from Cons.prems(1) obtain item rest where
    i: "body x = Inr item" and r: "collect body xs = Inr rest"
    and ys: "ys = (case item of None \<Rightarrow> rest | Some y \<Rightarrow> y # rest)"
    by (cases "body x"; cases "collect body xs") (auto simp: and_then_def)
  have "\<forall>y\<in>set rest. Q y" using Cons.IH [OF r] Cons.prems(2) by simp
  then show ?case using ys i Cons.prems(2) by (cases item) auto
qed

lemma set_take_slice: "set (take_slice xs n) \<subseteq> set xs"
  by (auto simp: take_slice_def dest: in_set_takeD)

lemma length_take_slice: "0 \<le> n \<Longrightarrow> length (take_slice xs n) \<le> nat n"
  by (simp add: take_slice_def)


section \<open>Travel estimate without a credential\<close>

lemma rnd_8: "rnd 8 = 8"
  using rnd_int_exact [of 8] by simp

text \<open>
  Claim C10. Without a credential \<open>get_travel_info\<close> is a constant function: any two
  runs, whatever their origins and destinations (and whatever else the environments
  hold), return the same record.
\<close>

theorem travel_constant_without_credential:
  assumes "GOOGLE_API_KEY w = []" and "GOOGLE_API_KEY w' = []"
  shows "get_travel_info w origin destination = get_travel_info w' origin' destination'"
  using assms by (simp add: get_travel_info_def mock_travel_def)

theorem travel_constant_without_credential_witness:
  "GOOGLE_API_KEY offline = [] \<and> GOOGLE_API_KEY (offline\<lparr>SERPAPI_KEY := ''key''\<rparr>) = []
   \<and> get_travel_info offline (PStr ''Gachibowli'') (PStr ''Charminar'')
     = get_travel_info (offline\<lparr>SERPAPI_KEY := ''key''\<rparr>) (PStr ''Kondapur'') (PInt 7)"
  using travel_constant_without_credential
    [of offline "offline\<lparr>SERPAPI_KEY := ''key''\<rparr>" "PStr ''Gachibowli''" "PStr ''Charminar''"
        "PStr ''Kondapur''" "PInt 7"]
  by (simp add: offline_def)

text \<open>
  Claim C4. With no credential the dispatcher, called with \<open>get_travel_info\<close> and the
  arguments \<open>{"origin": "A", "destination": "B"}\<close>, returns the JSON text of the fixed
  record of 8.0 km, 20 minutes and a fare of 130; \<open>get_travel_info\<close> itself returns that
  record for every origin and destination.
\<close>

theorem dispatcher_mock_travel:
  assumes "GOOGLE_API_KEY w = []"
  shows \<open>execute_tool w ''get_travel_info'' [(''origin'', PStr ''A''), (''destination'', PStr ''B'')]
           = ''{"distance_km": 8.0, "duration_mins": 20, "cab_fare_inr": 130, "mode": "Uber/Ola"}''
         \<and> get_travel_info w origin destination
           = Inr (PDict [(''distance_km'', PFloat (Finite 8)), (''duration_mins'', PInt 20),
                         (''cab_fare_inr'', PInt 130), (''mode'', PStr ''Uber/Ola'')])\<close>
  using assms
  by (simp add: execute_tool_def run_tool_def check_call_def get_travel_info_params_def arg_def
      get_travel_info_def mock_travel_def lit_def rnd_8 json_float_def float_repr_def
      json_string_def json_escape_def esc_byte_def show_int_def digits10.simps)

theorem dispatcher_mock_travel_witness:
  \<open>GOOGLE_API_KEY offline = []
   \<and> execute_tool offline ''get_travel_info'' [(''origin'', PStr ''A''), (''destination'', PStr ''B'')]
     = ''{"distance_km": 8.0, "duration_mins": 20, "cab_fare_inr": 130, "mode": "Uber/Ola"}''\<close>
  using dispatcher_mock_travel [of offline] by (simp add: offline_def)


section \<open>Unknown tool names\<close>

lemma json_escape_append:
  "json_escape False (s @ t) = json_escape False s @ json_escape False t"
  by (simp add: json_escape_def)

lemma esc_byte_plain:
  assumes "32 \<le> (of_char c :: nat)" and "c \<noteq> CHR 0x22" and "c \<noteq> CHR 0x5C"
  shows "esc_byte c = [c]"
  using assms by (auto simp: esc_byte_def)

lemma json_escape_plain:
  assumes "\<forall>c\<in>set s. 32 \<le> (of_char c :: nat) \<and> c \<noteq> CHR 0x22 \<and> c \<noteq> CHR 0x5C"
  shows "json_escape False s = s"
  using assms by (induction s) (simp_all add: json_escape_def esc_byte_plain)

text \<open>
  Claim C5. For every tool name other than the four known ones the dispatcher returns
  the JSON text of the record \<open>{"error": "Unknown tool: <name>"}\<close>, whatever the
  arguments; the name stands in it as \<open>json.dumps\<close> escapes it, which is the name itself
  when it has no quote, backslash or control character.
\<close>

theorem unknown_tool_error:
  assumes "tool_name \<notin> {''search_restaurants'', ''search_movies'', ''search_places'',
                         ''get_travel_info''}"
  shows \<open>execute_tool w tool_name tool_input
           = json_dumps w False (PDict [(''error'', PStr (''Unknown tool: '' @ tool_name))])
         \<and> execute_tool w tool_name tool_input
           = ''{"error": "Unknown tool: '' @ json_escape False tool_name @ ''"}''
         \<and> ((\<forall>c\<in>set tool_name. 32 \<le> (of_char c :: nat) \<and> c \<noteq> CHR 0x22 \<and> c \<noteq> CHR 0x5C)
              \<longrightarrow> execute_tool w tool_name tool_input
                    = ''{"error": "Unknown tool: '' @ tool_name @ ''"}'')\<close>
proof -
  have run: "run_tool w tool_name tool_input
               = Inr (PDict [(''error'', PStr (''Unknown tool: '' @ tool_name))])"
    using assms by (simp add: run_tool_def)
  have dumped: \<open>json_dumps w False (PDict [(''error'', PStr (''Unknown tool: '' @ tool_name))])
               = ''{"error": "Unknown tool: '' @ json_escape False tool_name @ ''"}''\<close>
    by (simp add: json_string_def json_escape_append) (simp add: json_escape_def esc_byte_def)
  show ?thesis
    using run dumped by (simp add: execute_tool_def json_escape_plain)
qed

theorem unknown_tool_error_witness:
  \<open>''book_cab'' \<notin> {''search_restaurants'', ''search_movies'', ''search_places'',
                    ''get_travel_info''}
   \<and> execute_tool offline ''book_cab'' [(''origin'', PStr ''A'')]
     = ''{"error": "Unknown tool: book_cab"}''\<close>
proof -
  have n: "''book_cab'' \<notin> {''search_restaurants'', ''search_movies'', ''search_places'',
                              ''get_travel_info''}"
    by simp
  have p: "\<forall>c\<in>set ''book_cab''. 32 \<le> (of_char c :: nat) \<and> c \<noteq> CHR 0x22 \<and> c \<noteq> CHR 0x5C"
    by simp
  from unknown_tool_error [OF n, of offline "[(''origin'', PStr ''A'')]"] p
  have \<open>execute_tool offline ''book_cab'' [(''origin'', PStr ''A'')]
          = ''{"error": "Unknown tool: '' @ ''book_cab'' @ ''"}''\<close>
    by blast
  then show ?thesis using n by simp
qed


section \<open>Ticket price tiers\<close>

lemma py_ge_int: "py_ge (PInt m) (PInt n) = Inr (n \<le> m)"
  by (simp add: py_ge_def)

lemma py_le_int: "py_le (PInt m) (PInt n) = Inr (m \<le> n)"
  by (simp add: py_le_def)

lemma estimate_ticket_price_int:
  "estimate_ticket_price (PInt m) = Inr (if 400 \<le> m then 350 else if 250 \<le> m then 220 else 150)"
  by (simp add: estimate_ticket_price_def py_ge_int)

lemma mock_movies_below_200:
  assumes "m < 200"
  shows "mock_movies genre (PInt m) = Inr (PList [])"
  using assms
  by (simp add: mock_movies_def all_movies_def keep_le_def py_le_int take_slice_def)

lemma movie_step_ticket_price:
  assumes "movie_step genre (PInt m) x = Inr (Some y)"
  shows "field ''ticket_price'' y
           = Some (PInt (if 400 \<le> m then 350 else if 250 \<le> m then 220 else 150))"
  using assms
  by (cases x) (auto simp: movie_step_def estimate_ticket_price_int movie_entry_def field_def)

text \<open>
  Claim C9. \<open>_estimate_ticket_price\<close> has the tiers 350 from 400 up, 220 from 250 up
  and 150 otherwise, so it returns 150 for every ceiling below 150 and its result is
  within the ceiling exactly when the ceiling is at least 150. On the live movie path
  every record returned for a ceiling below 150 carries the ticket price 150, above the
  ceiling.
\<close>

theorem ticket_price_above_low_ceiling:
  "estimate_ticket_price (PInt m)
     = Inr (if 400 \<le> m then 350 else if 250 \<le> m then 220 else 150)
   \<and> (m < 150 \<longrightarrow> estimate_ticket_price (PInt m) = Inr 150)
   \<and> (\<exists>p. estimate_ticket_price (PInt m) = Inr p \<and> (p \<le> m \<longleftrightarrow> 150 \<le> m))
   \<and> (SERPAPI_KEY w \<noteq> [] \<and> m < 150
        \<and> search_movies w preferred_genre (PInt m) limit = Inr (PList rs)
      \<longrightarrow> (\<forall>r\<in>set rs. \<exists>p. field ''ticket_price'' r = Some (PInt p) \<and> m < p))"
proof -
  have live: "\<forall>r\<in>set rs. field ''ticket_price'' r = Some (PInt 150)"
    if key: "SERPAPI_KEY w \<noteq> []" and m: "m < 150"
      and res: "search_movies w preferred_genre (PInt m) limit = Inr (PList rs)"
  proof -
    from res key obtain data found ms results where
      "http_json w = Inr data" "dict_get data ''showtimes'' (PList []) = Inr found"
      "py_slice_to found limit = Inr ms"
      and c: "collect (movie_step preferred_genre (PInt m)) ms = Inr results"
      and out: "(if results \<noteq> [] then Inr (PList results)
                 else mock_movies preferred_genre (PInt m)) = Inr (PList rs)"
      by (auto simp: search_movies_def and_then_def split: sum.splits)
    have "\<forall>y\<in>set results. field ''ticket_price'' y = Some (PInt 150)"
      using collect_all [OF c, of "\<lambda>y. field ''ticket_price'' y = Some (PInt 150)"]
        movie_step_ticket_price [of preferred_genre m] m by auto
    moreover have "mock_movies preferred_genre (PInt m) = Inr (PList [])"
      using m by (intro mock_movies_below_200) simp
    ultimately show ?thesis using out by (auto split: if_splits)
  qed
  show ?thesis
    using live by (fastforce simp: estimate_ticket_price_int)
qed

theorem ticket_price_above_low_ceiling_witness:
  "SERPAPI_KEY (online (PDict [(''showtimes'', PList [PDict [(''name'', PStr ''Salaar'')]])])) \<noteq> []
   \<and> (100::int) < 150
   \<and> search_movies (online (PDict [(''showtimes'', PList [PDict [(''name'', PStr ''Salaar'')]])]))
        (PStr ''action'') (PInt 100) (PInt 5)
     = Inr (PList [movie_entry (PStr ''action'') [(''name'', PStr ''Salaar'')] 150])
   \<and> field ''ticket_price'' (movie_entry (PStr ''action'') [(''name'', PStr ''Salaar'')] 150)
     = Some (PInt 150)
   \<and> estimate_ticket_price (PInt 100) = Inr 150"
  using ticket_price_above_low_ceiling
    [of 100 "online (PDict [(''showtimes'', PList [PDict [(''name'', PStr ''Salaar'')]])])"
        "PStr ''action''" "PInt 5"
        "[movie_entry (PStr ''action'') [(''name'', PStr ''Salaar'')] 150]"]
  by (simp add: online_def search_movies_def lookup_or_def take_slice_def movie_step_def
      estimate_ticket_price_int movie_entry_def field_def)


section \<open>Entry fees\<close>

lemma str_contains_iff: "str_contains k s \<longleftrightarrow> sublist k s"
  by (induction s) (auto simp: sublist_Cons_right)

lemma fee_lookup_first:
  assumes "i < length kvs" and "str_contains (fst (kvs ! i)) s"
    and "\<forall>j<i. \<not> str_contains (fst (kvs ! j)) s"
  shows "fee_lookup kvs s = snd (kvs ! i)"
  using assms
proof (induction kvs arbitrary: i)
  case Nil
  then show ?case by simp
next
  case (Cons kv kvs)
  obtain k v where kv: "kv = (k, v)" by (cases kv)
  show ?case
  proof (cases i)
    case 0
    with Cons.prems kv show ?thesis by simp
  next
    case (Suc n)
    with Cons.prems have "\<not> str_contains k s" using kv by auto
    moreover have "fee_lookup kvs s = snd (kvs ! n)"
      using Cons.prems Suc by (intro Cons.IH) auto
    ultimately show ?thesis using kv Suc by simp
  qed
qed

lemma fee_lookup_none:
  assumes "\<forall>k\<in>set (map fst kvs). \<not> str_contains k s"
  shows "fee_lookup kvs s = 50"
  using assms by (induction kvs) auto

lemma utf8_chars_ascii:
  assumes "\<forall>c\<in>set s. (of_char c :: nat) < 128"
  shows "utf8_chars s = map (\<lambda>c. [c]) s"
  using assms
proof (induction s)
  case Nil
  then show ?case by simp
next
  case (Cons c cs)
  have "\<forall>x\<in>set cs. \<not> is_cont x" using Cons.prems by (auto simp: is_cont_def)
  then have "takeWhile is_cont cs = []" "dropWhile is_cont cs = cs"
    by (cases cs; simp)+
  with Cons show ?case by simp
qed

lemma lower_one_ascii:
  assumes "(of_char c :: nat) < 128"
  shows "lower_one w seen [c] rest = [ascii_lower c]"
  using assms by (simp add: lower_one_def)

lemma lower_from_ascii:
  assumes "\<forall>c\<in>set s. (of_char c :: nat) < 128"
  shows "lower_from w seen (map (\<lambda>c. [c]) s) = map ascii_lower s"
  using assms by (induction s arbitrary: seen) (simp_all add: lower_one_ascii)

lemma str_lower_ascii:
  assumes "\<forall>c\<in>set s. (of_char c :: nat) < 128"
  shows "str_lower w s = map ascii_lower s"
  using assms by (simp add: str_lower_def utf8_chars_ascii lower_from_ascii)

lemma str_lower_golconda:
  "str_lower w ''Golconda Fort, Hyderabad'' = ''golconda fort, hyderabad''"
  by (subst str_lower_ascii) (simp_all add: ascii_lower_def)

lemma str_lower_dotted_I:
  "str_lower w (''RAMOJ'' @ [CHR 0xC4, CHR 0xB0] @ '' Film City'')
     = ''ramoji'' @ [CHR 0xCC, CHR 0x87] @ '' film city''"
  by (simp add: str_lower_def is_cont_def lower_one_def ascii_lower_def)

text \<open>
  Claim C8, as stated, fails: a name that contains two keys gets the fee of the one that
  comes first in the table, not the fee of each key it contains. The name below contains
  \<open>charminar\<close> (fee 25) and is given the fee 35 of \<open>golconda\<close>.
\<close>

theorem entry_fee_not_of_every_key:
  "str_contains ''charminar'' (str_lower offline ''Charminar near Golconda'')
   \<and> map_of fee_map ''charminar'' = Some 25
   \<and> estimate_entry_fee offline (PStr ''Charminar near Golconda'') = Inr 35
   \<and> estimate_entry_fee offline (PStr ''Charminar near Golconda'') \<noteq> Inr 25"
proof -
  have "str_lower offline ''Charminar near Golconda'' = ''charminar near golconda''"
    by (subst str_lower_ascii) (simp_all add: ascii_lower_def)
  then show ?thesis by (simp add: estimate_entry_fee_def fee_map_def)
qed

text \<open>
  Claim C8, amended. The table has 11 keys. The lookup lower-cases the name with
  \<open>str.lower()\<close> and returns the fee of the first key, in table order, that occurs in the
  lower-cased name as a substring (\<open>str_contains\<close> is \<open>sublist\<close>); a name whose lower-cased
  form contains no key yields 50. The lower-cased form of a name of ASCII characters is
  the name with \<open>a..z\<close> for \<open>A..Z\<close> (\<open>ascii_lower\<close>), so \<open>Golconda Fort, Hyderabad\<close> yields 35. Beyond
  ASCII the lower-cased form follows the Unicode tables: \<open>RAMOJ\<close>, the capital I with dot
  above (U+0130) and \<open> Film City\<close> contains \<open>ramoji\<close> once lower-cased, and yields 1150.
\<close>

theorem entry_fee_first_key:
  "length fee_map = 11
   \<and> estimate_entry_fee w (PStr ''Golconda Fort, Hyderabad'') = Inr 35
   \<and> (i < length fee_map \<and> sublist (fst (fee_map ! i)) (str_lower w name)
        \<and> (\<forall>j<i. \<not> sublist (fst (fee_map ! j)) (str_lower w name))
      \<longrightarrow> estimate_entry_fee w (PStr name) = Inr (snd (fee_map ! i)))
   \<and> ((\<forall>k\<in>set (map fst fee_map). \<not> sublist k (str_lower w name))
      \<longrightarrow> estimate_entry_fee w (PStr name) = Inr 50)
   \<and> ((\<forall>c\<in>set name. (of_char c :: nat) < 128) \<longrightarrow> str_lower w name = map ascii_lower name)
   \<and> estimate_entry_fee w (PStr (''RAMOJ'' @ [CHR 0xC4, CHR 0xB0] @ '' Film City''))
       = Inr 1150"
proof -
  have "length fee_map = 11" by (simp add: fee_map_def)
  moreover have "estimate_entry_fee w (PStr ''Golconda Fort, Hyderabad'') = Inr 35"
    by (simp add: estimate_entry_fee_def fee_map_def str_lower_golconda)
  moreover have "estimate_entry_fee w (PStr name) = Inr (snd (fee_map ! i))"
    if "i < length fee_map" "sublist (fst (fee_map ! i)) (str_lower w name)"
      "\<forall>j<i. \<not> sublist (fst (fee_map ! j)) (str_lower w name)"
    using that fee_lookup_first [of i fee_map "str_lower w name"]
    by (simp add: estimate_entry_fee_def str_contains_iff)
  moreover have "estimate_entry_fee w (PStr name) = Inr 50"
    if "\<forall>k\<in>set (map fst fee_map). \<not> sublist k (str_lower w name)"
    using that fee_lookup_none [of fee_map "str_lower w name"]
    by (simp add: estimate_entry_fee_def str_contains_iff)
  moreover have "str_lower w name = map ascii_lower name"
    if "\<forall>c\<in>set name. (of_char c :: nat) < 128"
    using that by (rule str_lower_ascii)
  moreover have "estimate_entry_fee w (PStr (''RAMOJ'' @ [CHR 0xC4, CHR 0xB0] @ '' Film City''))
       = Inr 1150"
    unfolding estimate_entry_fee_def py_lower.simps str_lower_dotted_I
    by (simp add: fee_map_def)
  ultimately show ?thesis by blast
qed

theorem entry_fee_first_key_witness:
  "(1::nat) < length fee_map
   \<and> sublist (fst (fee_map ! 1)) (str_lower offline ''CHARMINAR, Old City'')
   \<and> \<not> sublist (fst (fee_map ! 0)) (str_lower offline ''CHARMINAR, Old City'')
   \<and> estimate_entry_fee offline (PStr ''CHARMINAR, Old City'') = Inr 25
   \<and> estimate_entry_fee offline (PStr ''Inorbit Mall'') = Inr 50
   \<and> str_lower offline ''Inorbit Mall'' = ''inorbit mall''"
proof -
  have la: "\<forall>c\<in>set ''CHARMINAR, Old City''. (of_char c :: nat) < 128" by simp
  have lb: "\<forall>c\<in>set ''Inorbit Mall''. (of_char c :: nat) < 128" by simp
  from entry_fee_first_key [of offline 1 "''CHARMINAR, Old City''"] la
  have sa: "str_lower offline ''CHARMINAR, Old City'' = ''charminar, old city''"
    by (simp add: ascii_lower_def)
  from entry_fee_first_key [of offline 0 "''Inorbit Mall''"] lb
  have sb: "str_lower offline ''Inorbit Mall'' = ''inorbit mall''"
    by (simp add: ascii_lower_def)
  have a: "(1::nat) < length fee_map" by (simp add: fee_map_def)
  have b: "sublist (fst (fee_map ! 1)) (str_lower offline ''CHARMINAR, Old City'')"
    unfolding str_contains_iff [symmetric] sa by (simp add: fee_map_def)
  have c: "\<not> sublist (fst (fee_map ! 0)) (str_lower offline ''CHARMINAR, Old City'')"
    unfolding str_contains_iff [symmetric] sa by (simp add: fee_map_def)
  have d: "\<forall>j<1::nat. \<not> sublist (fst (fee_map ! j)) (str_lower offline ''CHARMINAR, Old City'')"
    using c by simp
  have e: "\<forall>k\<in>set (map fst fee_map). \<not> sublist k (str_lower offline ''Inorbit Mall'')"
    unfolding str_contains_iff [symmetric] sb by (simp add: fee_map_def)
  have f: "snd (fee_map ! 1) = 25" by (simp add: fee_map_def)
  from entry_fee_first_key [of offline 1 "''CHARMINAR, Old City''"] a b d f
  have "estimate_entry_fee offline (PStr ''CHARMINAR, Old City'') = Inr 25" by simp
  moreover from entry_fee_first_key [of offline 0 "''Inorbit Mall''"] e
  have "estimate_entry_fee offline (PStr ''Inorbit Mall'') = Inr 50" by blast
  ultimately show ?thesis using a b c sb by blast
qed


section \<open>Mock lists within the budget\<close>

lemma keep_le_product:
  assumes "map_of kvs key = Some (PInt k)" and "\<bar>k\<bar> \<le> 2 ^ 20"
    and "\<bar>rnd (rat_of_int B)\<bar> < 2 ^ 1024"
  shows "keep_le key (py_mul_lit (PInt B) c) (PDict kvs)
           = Inr (if rat_of_int k \<le> rnd (rnd (rat_of_int B) * rnd c)
                  then Some (PDict kvs) else None)"
  using assms by (simp add: keep_le_def py_mul_lit_int py_le_int_fl)

lemma keep_le_overflow:
  assumes "map_of kvs key = Some v" and "2 ^ 1024 \<le> \<bar>rnd (rat_of_int B)\<bar>"
  shows "keep_le key (py_mul_lit (PInt B) c) (PDict kvs) = Inl (Exc OverflowError ''*'' [PInt B])"
  using assms by (simp add: keep_le_def py_mul_lit_int)

lemma rnd_overflow_large:
  assumes "2 ^ 1024 \<le> \<bar>rnd (rat_of_int B)\<bar>"
  shows "2 ^ 1023 < \<bar>B\<bar>"
  using assms rnd_int_fits [of B] by (cases "\<bar>B\<bar> \<le> 2 ^ 1023") auto

lemma threshold_half_numeral:
  assumes "numeral n \<le> (2 ^ 20 :: int)"
  shows "((numeral n :: rat) \<le> rnd (rnd (rat_of_int B) * rnd (1 / 2))) = (2 * numeral n \<le> B)"
  using threshold_half [of "numeral n" B] assms by simp

lemma threshold_15_numeral:
  assumes "numeral n \<le> (2 ^ 20 :: int)" and "(20 * numeral n) mod 3 \<noteq> (0 :: int)"
  shows "((numeral n :: rat) \<le> rnd (rnd (rat_of_int B) * rnd (3 / 20))) = (20 * numeral n \<le> 3 * B)"
  using threshold_15 [of "numeral n" B] assms by simp

lemma threshold_15_zero:
  "(0 \<le> rnd (rnd (rat_of_int B) * rnd (3 / 20))) = (0 \<le> B)"
  by (rule threshold_zero) simp

lemma mock_restaurants_int:
  "mock_restaurants area (PInt B) =
     (if 2 ^ 1024 \<le> \<bar>rnd (rat_of_int B)\<bar> then Inl (Exc OverflowError ''*'' [PInt B])
      else Inr (PList (take 4 (filter (at_most ''estimated_cost'' (1 / 2 * rat_of_int B))
                                 all_restaurants))))"
proof (cases "2 ^ 1024 \<le> \<bar>rnd (rat_of_int B)\<bar>")
  case True
  then show ?thesis
    by (simp add: mock_restaurants_def all_restaurants_def keep_le_overflow)
next
  case False
  then have fits: "\<bar>rnd (rat_of_int B)\<bar> < 2 ^ 1024" by simp
  have "\<forall>r\<in>set all_restaurants.
          keep_le ''estimated_cost'' (py_mul_lit (PInt B) (5 / 10)) r
            = Inr (if at_most ''estimated_cost'' (1 / 2 * rat_of_int B) r then Some (id r) else None)"
    using fits
    by (simp add: all_restaurants_def keep_le_product threshold_half_numeral at_most_def field_def)
  from collect_pure [OF this] show ?thesis
    using False by (simp add: mock_restaurants_def take_slice_def)
qed


lemma mock_places_int:
  "mock_places interests (PInt B) =
     (if 2 ^ 1024 \<le> \<bar>rnd (rat_of_int B)\<bar> then Inl (Exc OverflowError ''*'' [PInt B])
      else Inr (PList (take 4 (filter (at_most ''entry_fee'' (15 / 100 * rat_of_int B))
                                 all_places))))"
proof (cases "2 ^ 1024 \<le> \<bar>rnd (rat_of_int B)\<bar>")
  case True
  then show ?thesis
    by (simp add: mock_places_def all_places_def keep_le_overflow)
next
  case False
  then have fits: "\<bar>rnd (rat_of_int B)\<bar> < 2 ^ 1024" by simp
  have "\<forall>r\<in>set all_places.
          keep_le ''entry_fee'' (py_mul_lit (PInt B) (15 / 100)) r
            = Inr (if at_most ''entry_fee'' (15 / 100 * rat_of_int B) r then Some (id r) else None)"
    using fits
    by (simp add: all_places_def keep_le_product threshold_15_numeral threshold_15_zero
        at_most_def field_def)
  from collect_pure [OF this] show ?thesis
    using False by (simp add: mock_places_def take_slice_def)
qed


lemma rnd_1000: "rnd 1000 = 1000"
  using rnd_int_exact [of 1000] by simp

lemma rnd_200: "rnd 200 = 200"
  using rnd_int_exact [of 200] by simp

text \<open>
  Claim C2. Without a credential, for every area and every \<open>int\<close> budget \<open>B\<close>, what
  \<open>search_restaurants\<close> returns is a list of at most 4 records, each with an
  \<open>estimated_cost\<close> of at most \<open>0.5 * B\<close>. It returns for every budget up to \<open>2 ^ 1023\<close>
  in magnitude; the only other outcome is the \<open>OverflowError\<close> of converting a budget
  beyond the range of a \<open>float\<close>.
\<close>

theorem mock_restaurants_within_half_budget:
  assumes "GOOGLE_API_KEY w = []"
  shows "(case search_restaurants w area (PInt B) cuisine limit of
            Inr v \<Rightarrow> (\<exists>rs. v = PList rs \<and> length rs \<le> 4
                          \<and> (\<forall>r\<in>set rs. at_most ''estimated_cost'' (1 / 2 * rat_of_int B) r))
          | Inl e \<Rightarrow> exc_class e = OverflowError \<and> 2 ^ 1023 < \<bar>B\<bar>)
         \<and> (\<bar>B\<bar> \<le> 2 ^ 1023 \<longrightarrow> (\<exists>rs. search_restaurants w area (PInt B) cuisine limit = Inr (PList rs)))"
proof -
  have s: "search_restaurants w area (PInt B) cuisine limit = mock_restaurants area (PInt B)"
    using assms by (simp add: search_restaurants_def)
  show ?thesis
  proof (cases "2 ^ 1024 \<le> \<bar>rnd (rat_of_int B)\<bar>")
    case True
    from rnd_overflow_large [OF True] show ?thesis
      using True by (simp add: s mock_restaurants_int)
  next
    case False
    then show ?thesis
      by (auto simp: s mock_restaurants_int dest: in_set_takeD)
  qed
qed

theorem mock_restaurants_within_half_budget_witness:
  "GOOGLE_API_KEY offline = []
   \<and> (\<exists>rs. search_restaurants offline (PStr ''Banjara Hills'') (PInt 1000) (PStr []) (PInt 5)
             = Inr (PList rs)
           \<and> map (field ''estimated_cost'') rs
             = [Some (PInt 320), Some (PInt 280), Some (PInt 350), Some (PInt 200)]
           \<and> length rs \<le> 4
           \<and> list_all (at_most ''estimated_cost'' (1 / 2 * rat_of_int 1000)) rs)"
proof -
  define rs where "rs = take 4 (filter (at_most ''estimated_cost'' (1 / 2 * rat_of_int 1000))
                                  all_restaurants)"
  have k: "GOOGLE_API_KEY offline = []" by (simp add: offline_def)
  have ev: "search_restaurants offline (PStr ''Banjara Hills'') (PInt 1000) (PStr []) (PInt 5)
              = Inr (PList rs)"
    using k by (simp add: search_restaurants_def mock_restaurants_int rnd_1000 rs_def)
  have costs: "map (field ''estimated_cost'') rs
                 = [Some (PInt 320), Some (PInt 280), Some (PInt 350), Some (PInt 200)]"
    by (simp add: rs_def all_restaurants_def at_most_def field_def)
  from mock_restaurants_within_half_budget
         [OF k, where area = "PStr ''Banjara Hills''" and B = 1000 and cuisine = "PStr []"
            and limit = "PInt 5"] ev
  have "length rs \<le> 4 \<and> (\<forall>r\<in>set rs. at_most ''estimated_cost'' (1 / 2 * rat_of_int 1000) r)"
    by simp
  then have "length rs \<le> 4 \<and> list_all (at_most ''estimated_cost'' (1 / 2 * rat_of_int 1000)) rs"
    by (simp add: list_all_iff)
  then have b: "length rs \<le> 4" and c: "list_all (at_most ''estimated_cost'' (1 / 2 * rat_of_int 1000)) rs"
    by simp_all
  show ?thesis
    by (rule conjI [OF k], rule exI [of _ rs]) (intro conjI ev costs b c)
qed

text \<open>
  Claim C3. Without a credential, for every \<open>int\<close> budget \<open>B\<close>, what \<open>search_places\<close>
  returns is a list of at most 4 records, each with an \<open>entry_fee\<close> of at most
  \<open>0.15 * B\<close>. It returns for every budget up to \<open>2 ^ 1023\<close> in magnitude; the only other
  outcome is the \<open>OverflowError\<close> of converting a budget beyond the range of a \<open>float\<close>.
\<close>

theorem mock_places_within_fee_budget:
  assumes "GOOGLE_API_KEY w = []"
  shows "(case search_places w interests (PInt B) area limit of
            Inr v \<Rightarrow> (\<exists>ps. v = PList ps \<and> length ps \<le> 4
                          \<and> (\<forall>p\<in>set ps. at_most ''entry_fee'' (15 / 100 * rat_of_int B) p))
          | Inl e \<Rightarrow> exc_class e = OverflowError \<and> 2 ^ 1023 < \<bar>B\<bar>)
         \<and> (\<bar>B\<bar> \<le> 2 ^ 1023 \<longrightarrow> (\<exists>ps. search_places w interests (PInt B) area limit = Inr (PList ps)))"
proof -
  have s: "search_places w interests (PInt B) area limit = mock_places interests (PInt B)"
    using assms by (simp add: search_places_def)
  show ?thesis
  proof (cases "2 ^ 1024 \<le> \<bar>rnd (rat_of_int B)\<bar>")
    case True
    from rnd_overflow_large [OF True] show ?thesis
      using True by (simp add: s mock_places_int)
  next
    case False
    then show ?thesis
      by (auto simp: s mock_places_int dest: in_set_takeD)
  qed
qed

theorem mock_places_within_fee_budget_witness:
  "GOOGLE_API_KEY offline = []
   \<and> (\<exists>ps. search_places offline (PStr ''sightseeing'') (PInt 200) (PStr ''Hyderabad'') (PInt 6)
             = Inr (PList ps)
           \<and> map (field ''entry_fee'') ps
             = [Some (PInt 0), Some (PInt 25), Some (PInt 0), Some (PInt 0)]
           \<and> length ps \<le> 4
           \<and> list_all (at_most ''entry_fee'' (15 / 100 * rat_of_int 200)) ps)"
proof -
  define ps where "ps = take 4 (filter (at_most ''entry_fee'' (15 / 100 * rat_of_int 200))
                                  all_places)"
  have k: "GOOGLE_API_KEY offline = []" by (simp add: offline_def)
  have ev: "search_places offline (PStr ''sightseeing'') (PInt 200) (PStr ''Hyderabad'') (PInt 6)
              = Inr (PList ps)"
    using k by (simp add: search_places_def mock_places_int rnd_200 ps_def)
  have fees: "map (field ''entry_fee'') ps
                = [Some (PInt 0), Some (PInt 25), Some (PInt 0), Some (PInt 0)]"
    by (simp add: ps_def all_places_def at_most_def field_def)
  from mock_places_within_fee_budget
         [OF k, where interests = "PStr ''sightseeing''" and B = 200
            and area = "PStr ''Hyderabad''" and limit = "PInt 6"] ev
  have "length ps \<le> 4 \<and> (\<forall>p\<in>set ps. at_most ''entry_fee'' (15 / 100 * rat_of_int 200) p)"
    by simp
  then have "length ps \<le> 4 \<and> list_all (at_most ''entry_fee'' (15 / 100 * rat_of_int 200)) ps"
    by (simp add: list_all_iff)
  then have b: "length ps \<le> 4" and c: "list_all (at_most ''entry_fee'' (15 / 100 * rat_of_int 200)) ps"
    by simp_all
  show ?thesis
    by (rule conjI [OF k], rule exI [of _ ps]) (intro conjI ev fees b c)
qed


section \<open>Travel estimate from a response\<close>

lemma and_then_assoc:
  "and_then (and_then m f) g = and_then m (\<lambda>x. and_then (f x) g)"
  by (cases m) simp_all

lemma follow_append: "follow (p @ q) v = and_then (follow p v) (follow q)"
proof (induction p arbitrary: v)
  case Nil
  then show ?case by simp
next
  case (Cons s p)
  then have "follow (p @ q) = (\<lambda>x. and_then (follow p x) (follow q))" by (intro ext)
  then show ?case by (cases s) (simp_all add: and_then_assoc)
qed

text \<open>
  The three outcomes of following a path: a missing item raises \<open>KeyError\<close> or
  \<open>IndexError\<close>, a value that does not take the subscript raises \<open>TypeError\<close>, and
  otherwise the value at the end of the path is returned.
\<close>

lemma absent_follow:
  assumes "absent_at p v"
  shows "\<exists>e. follow p v = Inl e \<and> (exc_class e = KeyError \<or> exc_class e = IndexError)"
  using assms
  by (induction p v rule: absent_at.induct) (auto split: option.splits list.splits)

lemma value_follow:
  assumes "value_at p v = Some x"
  shows "follow p v = Inr x"
  using assms
  by (induction p v rule: value_at.induct) (auto split: option.splits list.splits)

lemma wrong_type_follow:
  assumes "\<not> absent_at p v" and "value_at p v = None"
  shows "\<exists>e. follow p v = Inl e \<and> exc_class e = TypeError"
  using assms
proof (induction p arbitrary: v)
  case Nil
  then show ?case by simp
next
  case (Cons s p)
  show ?case
  proof (cases s)
    case (Key k)
    with Cons show ?thesis by (cases v) (auto split: option.splits)
  next
    case First
    with Cons show ?thesis by (cases v) (auto split: list.splits)
  qed
qed

lemma absent_iff:
  "absent_at p v \<longleftrightarrow>
     (\<exists>e. follow p v = Inl e \<and> (exc_class e = KeyError \<or> exc_class e = IndexError))"
proof
  assume "absent_at p v"
  then show "\<exists>e. follow p v = Inl e \<and> (exc_class e = KeyError \<or> exc_class e = IndexError)"
    by (rule absent_follow)
next
  assume r: "\<exists>e. follow p v = Inl e \<and> (exc_class e = KeyError \<or> exc_class e = IndexError)"
  show "absent_at p v"
  proof (rule ccontr)
    assume n: "\<not> absent_at p v"
    show False
    proof (cases "value_at p v")
      case None
      from wrong_type_follow [OF n None] r show False by auto
    next
      case (Some x)
      from value_follow [OF Some] r show False by auto
    qed
  qed
qed

lemma travel_from_response_paths:
  "travel_from_response data =
     and_then (follow distance_path data) (\<lambda>metres.
     and_then (py_truediv_int metres 1000) (\<lambda>distance_km.
     and_then (follow duration_path data) (\<lambda>seconds.
     and_then (py_floordiv_int seconds 60) (\<lambda>duration_min.
     and_then (estimate_cab_fare distance_km) (\<lambda>fare.
       Inr (travel_record (float_round1 distance_km) duration_min fare))))))"
proof -
  define pre where "pre = [Key ''rows'', First, Key ''elements'', First]"
  have d: "follow distance_path data
             = and_then (follow pre data) (follow [Key ''distance'', Key ''value''])"
    using follow_append [of pre "[Key ''distance'', Key ''value'']" data]
    by (simp add: distance_path_def pre_def)
  have u: "follow duration_path data
             = and_then (follow pre data) (follow [Key ''duration'', Key ''value''])"
    using follow_append [of pre "[Key ''duration'', Key ''value'']" data]
    by (simp add: duration_path_def pre_def)
  have t: "travel_from_response data =
     and_then (follow pre data) (\<lambda>element.
     and_then (follow [Key ''distance'', Key ''value''] element) (\<lambda>metres.
     and_then (py_truediv_int metres 1000) (\<lambda>distance_km.
     and_then (follow [Key ''duration'', Key ''value''] element) (\<lambda>seconds.
     and_then (py_floordiv_int seconds 60) (\<lambda>duration_min.
     and_then (estimate_cab_fare distance_km) (\<lambda>fare.
       Inr (travel_record (float_round1 distance_km) duration_min fare)))))))"
    by (simp add: travel_from_response_def and_then_assoc pre_def travel_record_def)
  show ?thesis
  proof (cases "follow pre data")
    case (Inl e)
    then show ?thesis unfolding t d u by simp
  next
    case (Inr element)
    then show ?thesis unfolding t d u by simp
  qed
qed

lemma tiny_le_thousandth: "(2::rat) powi (- 1022) \<le> 1 / 1000"
proof -
  have "(2::rat) powi (- 1022) \<le> 2 powi (- 10)"
    by (rule power_int_increasing) simp_all
  also have "\<dots> \<le> 1 / 1000" by (simp add: power_int_minus)
  finally show ?thesis .
qed

lemma truediv_1000_fits:
  assumes "\<bar>m\<bar> \<le> 2 ^ 1023"
  shows "\<exists>km. py_truediv_int (PInt m) 1000 = Inr km"
proof (cases "m = 0")
  case True
  then show ?thesis by (simp add: rnd_0)
next
  case False
  define x where "x = rat_of_int m / 1000"
  have "1 \<le> \<bar>m\<bar>" using False by simp
  then have "rat_of_int 1 \<le> rat_of_int \<bar>m\<bar>" by (simp only: of_int_le_iff)
  then have lo: "1 / 1000 \<le> \<bar>x\<bar>" by (simp add: x_def)
  have "rat_of_int \<bar>m\<bar> \<le> rat_of_int (2 ^ 1023)" using assms by (simp only: of_int_le_iff)
  then have up: "\<bar>x\<bar> \<le> 2 ^ 1023 / 1000" by (simp add: x_def)
  have "2 powi (- 1022) \<le> \<bar>x\<bar>" using lo tiny_le_thousandth by linarith
  from rnd_err [OF this] have "\<bar>rnd x\<bar> \<le> \<bar>x\<bar> + \<bar>x\<bar> / 2 ^ 53" by linarith
  also have "\<dots> \<le> 2 ^ 1023 / 1000 + (2 ^ 1023 / 1000) / 2 ^ 53"
    using up by (intro add_mono divide_right_mono) auto
  also have "\<dots> < 2 ^ 1024" by simp
  finally have "\<not> 2 ^ 1024 \<le> \<bar>rnd x\<bar>" by simp
  then show ?thesis by (simp add: x_def Let_def)
qed

lemma truediv_accepts:
  assumes "is_distance v"
  shows "\<exists>km. py_truediv_int v 1000 = Inr km"
  using assms by (cases v) (simp_all add: is_distance_def Let_def)

lemma truediv_refuses:
  assumes "\<not> is_distance v"
  shows "\<exists>e. py_truediv_int v 1000 = Inl e
             \<and> (exc_class e = TypeError \<or> exc_class e = OverflowError)"
  using assms by (cases v) (simp_all add: is_distance_def Let_def)

lemma floordiv_cases:
  "(\<exists>x. py_floordiv_int v 60 = Inr x)
   \<or> (\<exists>e. py_floordiv_int v 60 = Inl e \<and> exc_class e = TypeError)"
  by (cases v) simp_all

lemma int_of_float_cases:
  "(\<exists>n. int_of_float f = Inr n)
   \<or> (\<exists>e. int_of_float f = Inl e \<and> (exc_class e = ValueError \<or> exc_class e = OverflowError))"
  by (cases f) simp_all

lemma cab_fare_cases:
  "(\<exists>n. estimate_cab_fare km = Inr n)
   \<or> (\<exists>e. estimate_cab_fare km = Inl e
           \<and> (exc_class e = ValueError \<or> exc_class e = OverflowError))"
  unfolding estimate_cab_fare_def by (rule int_of_float_cases)

text \<open>
  A record computed from a response never equals the fallback record: a distance that
  rounds to 8.0 km has a fare of at least 143.
\<close>

lemma round1_eq_8:
  assumes "float_round1 km = Finite 8"
  shows "\<exists>q. km = Finite q \<and> 159 / 20 \<le> q \<and> q \<le> 161 / 20"
proof (cases km)
  case (Finite q)
  define n where "n = rhe (q * 10)"
  define d where "d = rat_of_int n / 10"
  from assms Finite have "fl d = Finite 8"
    by (simp add: Let_def d_def n_def split: if_splits)
  then have r: "rnd d = 8" by (simp add: fl_def Let_def split: if_splits)
  have n0: "n \<noteq> 0"
  proof
    assume "n = 0"
    then have "d = 0" by (simp add: d_def)
    with r show False by (simp add: rnd_0)
  qed
  then have "1 \<le> \<bar>n\<bar>" by simp
  then have "rat_of_int 1 \<le> rat_of_int \<bar>n\<bar>" by (simp only: of_int_le_iff)
  then have lo: "1 / 10 \<le> \<bar>d\<bar>" by (simp add: d_def)
  have "2 powi (- 1022) \<le> \<bar>d\<bar>" using lo tiny_le by linarith
  from rnd_err [OF this] r have e: "\<bar>8 - d\<bar> \<le> \<bar>d\<bar> / 2 ^ 53" by simp
  have n80: "n = 80"
  proof -
    consider "n \<le> 79" | "n = 80" | "81 \<le> n" by linarith
    then show ?thesis
    proof cases
      case 1
      then have "rat_of_int n \<le> rat_of_int 79" by (simp only: of_int_le_iff)
      then have "d \<le> 79 / 10" by (simp add: d_def)
      moreover have "- (1 / 10) * rat_of_int \<bar>n\<bar> \<le> d" by (simp add: d_def)
      ultimately show ?thesis using e by (cases "0 \<le> d") (simp_all add: field_simps)
    next
      case 2
      then show ?thesis .
    next
      case 3
      then have "rat_of_int 81 \<le> rat_of_int n" by (simp only: of_int_le_iff)
      then have "81 / 10 \<le> d" by (simp add: d_def)
      then show ?thesis using e by (simp add: field_simps)
    qed
  qed
  have "\<bar>rat_of_int (rhe (q * 10)) - q * 10\<bar> \<le> 1 / 2" by (rule rhe_err)
  then have "\<bar>80 - q * 10\<bar> \<le> 1 / 2" using n80 by (simp add: n_def)
  then have "159 / 20 \<le> q \<and> q \<le> 161 / 20" by linarith
  with Finite show ?thesis by simp
qed (use assms in simp_all)

lemma fare_of_8:
  assumes "float_round1 km = Finite 8" and "estimate_cab_fare km = Inr fare"
  shows "143 \<le> fare"
proof -
  from round1_eq_8 [OF assms(1)] obtain q where
    km: "km = Finite q" and q: "159 / 20 \<le> q" "q \<le> 161 / 20" by blast
  define x where "x = q * 12"
  have x: "477 / 5 \<le> x" "x \<le> 483 / 5" using q by (simp_all add: x_def)
  have "1 / 64 \<le> x" using x by linarith
  from rnd_pos_bounds [OF this] have "x * (1 - 1 / 2 ^ 53) \<le> rnd x" "rnd x \<le> x * (1 + 1 / 2 ^ 53)"
    by blast+
  moreover have "95 \<le> x * (1 - 1 / 2 ^ 53)" using x(1) by (simp add: field_simps)
  moreover have "x * (1 + 1 / 2 ^ 53) \<le> 97" using x(2) by (simp add: field_simps)
  ultimately have p: "95 \<le> rnd x" "rnd x \<le> 97" by linarith+
  have "rnd x < 2 ^ 1024" using p(2) by (rule le_less_trans) simp
  then have m: "float_mul_pos km 12 = Finite (rnd x)"
    using p(1) by (simp add: km x_def fl_def Let_def)
  define y where "y = 50 + rnd x"
  have y: "145 \<le> y" "y \<le> 147" using p by (simp_all add: y_def)
  have "1 / 64 \<le> y" using y by linarith
  from rnd_pos_bounds [OF this] have "y * (1 - 1 / 2 ^ 53) \<le> rnd y" "rnd y \<le> y * (1 + 1 / 2 ^ 53)"
    by blast+
  moreover have "144 \<le> y * (1 - 1 / 2 ^ 53)" using y(1) by (simp add: field_simps)
  moreover have "y * (1 + 1 / 2 ^ 53) \<le> 148" using y(2) by (simp add: field_simps)
  ultimately have s: "144 \<le> rnd y" "rnd y \<le> 148" by linarith+
  have "rnd y < 2 ^ 1024" using s(2) by (rule le_less_trans) simp
  then have a: "float_add_int 50 (float_mul_pos km 12) = Finite (rnd y)"
    using s(1) by (simp add: m y_def fl_def Let_def)
  have "estimate_cab_fare km = Inr \<lfloor>rnd y\<rfloor>"
    using s(1) by (simp add: estimate_cab_fare_def a)
  with assms(2) have "fare = \<lfloor>rnd y\<rfloor>" by simp
  moreover have "144 \<le> \<lfloor>rnd y\<rfloor>" using s(1) by (simp add: le_floor_iff)
  ultimately show ?thesis by simp
qed

lemma try_block_missing:
  assumes "missing_field data"
  shows "\<exists>e. travel_from_response data = Inl e
             \<and> (exc_class e = KeyError \<or> exc_class e = IndexError)"
proof -
  from assms consider (a) "absent_at distance_path data"
    | (b) metres where "value_at distance_path data = Some metres" "is_distance metres"
        "absent_at duration_path data"
    by (auto simp: missing_field_def split: option.splits)
  then show ?thesis
  proof cases
    case a
    from absent_follow [OF a] obtain e where
      "follow distance_path data = Inl e" "exc_class e = KeyError \<or> exc_class e = IndexError"
      by blast
    then show ?thesis unfolding travel_from_response_paths by simp
  next
    case b
    from truediv_accepts [OF b(2)] obtain km where "py_truediv_int metres 1000 = Inr km"
      by blast
    moreover from absent_follow [OF b(3)] obtain e where
      "follow duration_path data = Inl e" "exc_class e = KeyError \<or> exc_class e = IndexError"
      by blast
    ultimately show ?thesis
      unfolding travel_from_response_paths using value_follow [OF b(1)] by simp
  qed
qed

lemma try_block_other:
  assumes "\<not> missing_field data"
  shows "(\<exists>e. travel_from_response data = Inl e
              \<and> (exc_class e = TypeError \<or> exc_class e = OverflowError
                  \<or> exc_class e = ValueError))
         \<or> (\<exists>km mins fare.
               travel_from_response data = Inr (travel_record (float_round1 km) mins fare)
               \<and> estimate_cab_fare km = Inr fare)"
proof -
  have na: "\<not> absent_at distance_path data" using assms by (simp add: missing_field_def)
  show ?thesis
  proof (cases "value_at distance_path data")
    case None
    from wrong_type_follow [OF na None] obtain e where
      "follow distance_path data = Inl e" "exc_class e = TypeError" by blast
    then show ?thesis unfolding travel_from_response_paths by simp
  next
    case (Some metres)
    note f = value_follow [OF Some]
    show ?thesis
    proof (cases "is_distance metres")
      case False
      from truediv_refuses [OF False] obtain e where
        "py_truediv_int metres 1000 = Inl e"
        "exc_class e = TypeError \<or> exc_class e = OverflowError" by blast
      then show ?thesis unfolding travel_from_response_paths using f by auto
    next
      case True
      from truediv_accepts [OF True] obtain km where km: "py_truediv_int metres 1000 = Inr km"
        by blast
      have nd: "\<not> absent_at duration_path data"
        using assms Some True by (simp add: missing_field_def)
      show ?thesis
      proof (cases "value_at duration_path data")
        case None
        from wrong_type_follow [OF nd None] obtain e where
          "follow duration_path data = Inl e" "exc_class e = TypeError" by blast
        then show ?thesis unfolding travel_from_response_paths using f km by simp
      next
        case (Some seconds)
        note g = value_follow [OF Some]
        from floordiv_cases [of seconds] show ?thesis
        proof
          assume "\<exists>x. py_floordiv_int seconds 60 = Inr x"
          then obtain mins where mins: "py_floordiv_int seconds 60 = Inr mins" by blast
          from cab_fare_cases [of km] show ?thesis
          proof
            assume "\<exists>n. estimate_cab_fare km = Inr n"
            then obtain fare where "estimate_cab_fare km = Inr fare" by blast
            then have "travel_from_response data
                         = Inr (travel_record (float_round1 km) mins fare)
                       \<and> estimate_cab_fare km = Inr fare"
              unfolding travel_from_response_paths using f km g mins by simp
            then show ?thesis by blast
          next
            assume "\<exists>e. estimate_cab_fare km = Inl e
                        \<and> (exc_class e = ValueError \<or> exc_class e = OverflowError)"
            then obtain e where "estimate_cab_fare km = Inl e"
              "exc_class e = ValueError \<or> exc_class e = OverflowError" by blast
            then show ?thesis
              unfolding travel_from_response_paths using f km g mins by auto
          qed
        next
          assume "\<exists>e. py_floordiv_int seconds 60 = Inl e \<and> exc_class e = TypeError"
          then obtain e where "py_floordiv_int seconds 60 = Inl e" "exc_class e = TypeError"
            by blast
          then show ?thesis unfolding travel_from_response_paths using f km g by simp
        qed
      qed
    qed
  qed
qed

lemma live_travel:
  assumes "GOOGLE_API_KEY w \<noteq> []" and "http_json w = Inr data"
  shows "get_travel_info w origin destination =
           (case travel_from_response data of
              Inr info \<Rightarrow> Inr info
            | Inl e \<Rightarrow> (if exc_class e = KeyError \<or> exc_class e = IndexError
                        then Inr (mock_travel origin destination) else Inl e))"
  using assms by (simp add: get_travel_info_def)

lemma mock_travel_record: "mock_travel origin destination = travel_record (Finite 8) (PInt 20) 130"
  by (simp add: mock_travel_def travel_record_def lit_def rnd_8)

text \<open>
  Claim C7, as stated, fails for a field of the wrong shape: the \<open>try\<close> block catches
  \<open>KeyError\<close> and \<open>IndexError\<close> only. A distance given as a string, or \<open>rows\<close> given as
  \<open>null\<close>, raises \<open>TypeError\<close>, which leaves \<open>get_travel_info\<close> as an exception.
\<close>

theorem travel_wrong_shape_raises:
  "get_travel_info
     (online (PDict [(''rows'', PList [PDict [(''elements'', PList [PDict
        [(''distance'', PDict [(''value'', PStr ''8000'')]),
         (''duration'', PDict [(''value'', PInt 1200)])]])]])]))
     (PStr ''A'') (PStr ''B'')
     = Inl (Exc TypeError ''/'' [PStr ''8000'', PInt 1000])
   \<and> get_travel_info
     (online (PDict [(''rows'', PList [PDict [(''elements'', PList [PDict
        [(''distance'', PDict [(''value'', PStr ''8000'')]),
         (''duration'', PDict [(''value'', PInt 1200)])]])]])]))
     (PStr ''A'') (PStr ''B'')
     \<noteq> Inr (mock_travel (PStr ''A'') (PStr ''B''))
   \<and> get_travel_info (online (PDict [(''rows'', PNone)])) (PStr ''A'') (PStr ''B'')
     = Inl (Exc TypeError ''[]'' [PNone, PInt 0])"
  by (simp add: get_travel_info_def online_def travel_from_response_def)

text \<open>
  Claim C7, amended. On the live path the fixed fallback record is the answer exactly
  when a field is missing from the response (\<open>missing_field\<close>): on the way
  \<open>data["rows"][0]["elements"][0]["distance"]["value"]\<close> an object lacks the next key or
  is subscripted with \<open>0\<close>, or an array or a string is empty where its first item is
  taken; or that way leads to a distance that \<open>/ 1000\<close> accepts (an \<open>int\<close> whose quotient
  is within the range of a float, as for every \<open>int\<close> up to \<open>2 ^ 1023\<close> in magnitude, a
  \<open>bool\<close> or a \<open>float\<close>) and the same happens on the way to \<open>["duration"]["value"]\<close>.

  In every other case the answer is that of the \<open>try\<close> block: the four-field record
  computed from the response, or the exception raised there, which is a \<open>TypeError\<close>, an
  \<open>OverflowError\<close> or a \<open>ValueError\<close> and leaves \<open>get_travel_info\<close>. A value on the way
  to the distance that does not take its subscript raises \<open>TypeError\<close>; so does a
  distance that is not a number, and an \<open>int\<close> distance beyond the range raises
  \<open>OverflowError\<close>.
\<close>

theorem travel_fallback_iff_missing_field:
  assumes "GOOGLE_API_KEY w \<noteq> []" and "http_json w = Inr data"
  shows "(get_travel_info w origin destination = Inr (mock_travel origin destination)
            \<longleftrightarrow> missing_field data)
         \<and> (\<not> missing_field data \<longrightarrow>
               get_travel_info w origin destination = travel_from_response data
               \<and> ((\<exists>e. travel_from_response data = Inl e
                        \<and> (exc_class e = TypeError \<or> exc_class e = OverflowError
                            \<or> exc_class e = ValueError))
                   \<or> (\<exists>km mins fare.
                         travel_from_response data = Inr (travel_record km mins fare))))
         \<and> (\<not> absent_at distance_path data \<and> value_at distance_path data = None \<longrightarrow>
               (\<exists>e. get_travel_info w origin destination = Inl e \<and> exc_class e = TypeError))
         \<and> (\<forall>metres. value_at distance_path data = Some metres \<and> \<not> is_distance metres \<longrightarrow>
               (\<exists>e. get_travel_info w origin destination = Inl e
                    \<and> exc_class e = (case metres of PInt m \<Rightarrow> OverflowError | _ \<Rightarrow> TypeError)))
         \<and> (\<bar>m\<bar> \<le> 2 ^ 1023 \<longrightarrow> is_distance (PInt m))"
proof -
  note g = live_travel [OF assms, of origin destination]
  have fallback: "get_travel_info w origin destination = Inr (mock_travel origin destination)"
    if "missing_field data"
  proof -
    from try_block_missing [OF that] obtain e where
      "travel_from_response data = Inl e" "exc_class e = KeyError \<or> exc_class e = IndexError"
      by blast
    then show ?thesis unfolding g by auto
  qed
  have other: "get_travel_info w origin destination = travel_from_response data"
    if "\<not> missing_field data"
    using try_block_other [OF that] unfolding g by auto
  have differs: "travel_from_response data \<noteq> Inr (mock_travel origin destination)"
    if n: "\<not> missing_field data"
  proof
    assume eq: "travel_from_response data = Inr (mock_travel origin destination)"
    from try_block_other [OF n] eq obtain km mins fare where
      "travel_from_response data = Inr (travel_record (float_round1 km) mins fare)"
      "estimate_cab_fare km = Inr fare"
      by auto
    with eq have "float_round1 km = Finite 8" "fare = 130" "estimate_cab_fare km = Inr fare"
      by (simp_all add: mock_travel_record travel_record_def)
    with fare_of_8 [of km fare] show False by simp
  qed
  have c1: "get_travel_info w origin destination = Inr (mock_travel origin destination)
              \<longleftrightarrow> missing_field data"
    using fallback other differs by metis
  have c2: "(\<exists>e. travel_from_response data = Inl e
                 \<and> (exc_class e = TypeError \<or> exc_class e = OverflowError
                     \<or> exc_class e = ValueError))
            \<or> (\<exists>km mins fare. travel_from_response data = Inr (travel_record km mins fare))"
    if "\<not> missing_field data"
    using try_block_other [OF that] by blast
  have c3: "\<exists>e. get_travel_info w origin destination = Inl e \<and> exc_class e = TypeError"
    if na: "\<not> absent_at distance_path data" and v: "value_at distance_path data = None"
  proof -
    from wrong_type_follow [OF na v] obtain e where
      "follow distance_path data = Inl e" "exc_class e = TypeError" by blast
    then have "travel_from_response data = Inl e \<and> exc_class e = TypeError"
      unfolding travel_from_response_paths by simp
    then show ?thesis unfolding g by auto
  qed
  have c4: "\<exists>e. get_travel_info w origin destination = Inl e
                \<and> exc_class e = (case metres of PInt m \<Rightarrow> OverflowError | _ \<Rightarrow> TypeError)"
    if v: "value_at distance_path data = Some metres" and d: "\<not> is_distance metres"
    for metres
  proof -
    have "\<exists>e. py_truediv_int metres 1000 = Inl e
              \<and> exc_class e = (case metres of PInt m \<Rightarrow> OverflowError | _ \<Rightarrow> TypeError)"
      using d by (cases metres) (simp_all add: is_distance_def Let_def)
    then obtain e where "py_truediv_int metres 1000 = Inl e"
      "exc_class e = (case metres of PInt m \<Rightarrow> OverflowError | _ \<Rightarrow> TypeError)" by blast
    then have "travel_from_response data = Inl e
               \<and> exc_class e = (case metres of PInt m \<Rightarrow> OverflowError | _ \<Rightarrow> TypeError)"
      unfolding travel_from_response_paths using value_follow [OF v] by simp
    then show ?thesis unfolding g by (cases metres) auto
  qed
  have c5: "is_distance (PInt m)" if m: "\<bar>m\<bar> \<le> 2 ^ 1023"
  proof -
    from truediv_1000_fits [OF m] obtain km where "py_truediv_int (PInt m) 1000 = Inr km"
      by blast
    then show ?thesis by (simp add: is_distance_def Let_def split: if_splits)
  qed
  show ?thesis using c1 other c2 c3 c4 c5 by blast
qed

theorem travel_fallback_iff_missing_field_witness:
  "GOOGLE_API_KEY (online (PDict [(''rows'', PDict [])])) \<noteq> []
   \<and> http_json (online (PDict [(''rows'', PDict [])])) = Inr (PDict [(''rows'', PDict [])])
   \<and> missing_field (PDict [(''rows'', PDict [])])
   \<and> get_travel_info (online (PDict [(''rows'', PDict [])]))
        (PStr ''A'') (PStr ''B'')
     = Inr (mock_travel (PStr ''A'') (PStr ''B''))
   \<and> missing_field (PDict [(''rows'', PStr [])])
   \<and> get_travel_info (online (PDict [(''rows'', PStr [])]))
        (PStr ''A'') (PStr ''B'')
     = Inr (mock_travel (PStr ''A'') (PStr ''B''))
   \<and> missing_field (PDict [(''rows'', PList []), (''status'', PStr ''REQUEST_DENIED'')])
   \<and> get_travel_info (online (PDict [(''rows'', PList []), (''status'', PStr ''REQUEST_DENIED'')]))
        (PStr ''A'') (PStr ''B'')
     = Inr (mock_travel (PStr ''A'') (PStr ''B''))
   \<and> missing_field (PDict [(''rows'', PList [PDict [(''elements'', PList [PDict
           [(''distance'', PDict [(''value'', PInt 8000)])]])]])])
   \<and> get_travel_info (online (PDict [(''rows'', PList [PDict [(''elements'', PList [PDict
           [(''distance'', PDict [(''value'', PInt 8000)])]])]])]))
        (PStr ''A'') (PStr ''B'')
     = Inr (mock_travel (PStr ''A'') (PStr ''B''))
   \<and> \<not> absent_at distance_path (PDict [(''rows'', PNone)])
   \<and> value_at distance_path (PDict [(''rows'', PNone)]) = None
   \<and> (\<exists>e. get_travel_info (online (PDict [(''rows'', PNone)]))
        (PStr ''A'') (PStr ''B'') = Inl e
        \<and> exc_class e = TypeError)
   \<and> value_at distance_path (PDict [(''rows'', PList [PDict [(''elements'', PList [PDict
           [(''distance'', PDict [(''value'', PStr ''8000'')]),
            (''duration'', PDict [(''value'', PInt 1200)])]])]])])
     = Some (PStr ''8000'')
   \<and> \<not> is_distance (PStr ''8000'')
   \<and> (\<exists>e. get_travel_info (online (PDict [(''rows'', PList [PDict [(''elements'', PList [PDict
           [(''distance'', PDict [(''value'', PStr ''8000'')]),
            (''duration'', PDict [(''value'', PInt 1200)])]])]])]))
        (PStr ''A'') (PStr ''B'') = Inl e
        \<and> exc_class e = TypeError)
   \<and> \<not> missing_field (PDict [(''rows'', PList [PDict [(''elements'', PList [PDict
           [(''distance'', PDict [(''value'', PInt 8000)]),
            (''duration'', PDict [(''value'', PInt 1200)])]])]])])
   \<and> get_travel_info (online (PDict [(''rows'', PList [PDict [(''elements'', PList [PDict
           [(''distance'', PDict [(''value'', PInt 8000)]),
            (''duration'', PDict [(''value'', PInt 1200)])]])]])]))
        (PStr ''A'') (PStr ''B'')
     \<noteq> Inr (mock_travel (PStr ''A'') (PStr ''B''))
   \<and> is_distance (PInt 8000)"
proof -
  define r1 where "r1 = PDict [(''rows'', PDict [])]"
  define r2 where "r2 = PDict [(''rows'', PStr [])]"
  define r3 where "r3 = PDict [(''rows'', PList []), (''status'', PStr ''REQUEST_DENIED'')]"
  define r4 where "r4 = PDict [(''rows'', PList [PDict [(''elements'', PList [PDict
           [(''distance'', PDict [(''value'', PInt 8000)])]])]])]"
  define r5 where "r5 = PDict [(''rows'', PNone)]"
  define r6 where "r6 = PDict [(''rows'', PList [PDict [(''elements'', PList [PDict
           [(''distance'', PDict [(''value'', PInt 8000)]),
            (''duration'', PDict [(''value'', PInt 1200)])]])]])]"
  define r7 where "r7 = PDict [(''rows'', PList [PDict [(''elements'', PList [PDict
           [(''distance'', PDict [(''value'', PStr ''8000'')]),
            (''duration'', PDict [(''value'', PInt 1200)])]])]])]"
  have k: "GOOGLE_API_KEY (online r) \<noteq> []" and h: "http_json (online r) = Inr r" for r
    by (simp_all add: online_def)
  note t = travel_fallback_iff_missing_field [OF k h, of _ "PStr ''A''" "PStr ''B''"]
  have d: "is_distance (PInt 8000)" using t [of r1 8000] by simp
  have m1: "missing_field r1" by (simp add: r1_def missing_field_def distance_path_def)
  have m2: "missing_field r2" by (simp add: r2_def missing_field_def distance_path_def)
  have m3: "missing_field r3" by (simp add: r3_def missing_field_def distance_path_def)
  have m4: "missing_field r4"
    using d by (simp add: r4_def missing_field_def distance_path_def duration_path_def)
  have a5: "\<not> absent_at distance_path r5" "value_at distance_path r5 = None"
    by (simp_all add: r5_def distance_path_def)
  have v7: "value_at distance_path r7 = Some (PStr ''8000'')"
    by (simp add: r7_def distance_path_def)
  have d7: "\<not> is_distance (PStr ''8000'')" by (simp add: is_distance_def)
  have m6: "\<not> missing_field r6"
    by (simp add: r6_def missing_field_def distance_path_def duration_path_def)
  have g1: "get_travel_info (online r1) (PStr ''A'') (PStr ''B'')
              = Inr (mock_travel (PStr ''A'') (PStr ''B''))" using t [of r1] m1 by blast
  have g2: "get_travel_info (online r2) (PStr ''A'') (PStr ''B'')
              = Inr (mock_travel (PStr ''A'') (PStr ''B''))" using t [of r2] m2 by blast
  have g3: "get_travel_info (online r3) (PStr ''A'') (PStr ''B'')
              = Inr (mock_travel (PStr ''A'') (PStr ''B''))" using t [of r3] m3 by blast
  have g4: "get_travel_info (online r4) (PStr ''A'') (PStr ''B'')
              = Inr (mock_travel (PStr ''A'') (PStr ''B''))" using t [of r4] m4 by blast
  have g5: "\<exists>e. get_travel_info (online r5) (PStr ''A'') (PStr ''B'') = Inl e
                \<and> exc_class e = TypeError" using t [of r5] a5 by blast
  have "\<exists>e. get_travel_info (online r7) (PStr ''A'') (PStr ''B'') = Inl e
            \<and> exc_class e = (case PStr ''8000'' of PInt m \<Rightarrow> OverflowError | _ \<Rightarrow> TypeError)"
    using t [of r7] v7 d7 by blast
  then have g7: "\<exists>e. get_travel_info (online r7) (PStr ''A'') (PStr ''B'') = Inl e
                \<and> exc_class e = TypeError" by simp
  have g6: "get_travel_info (online r6) (PStr ''A'') (PStr ''B'')
              \<noteq> Inr (mock_travel (PStr ''A'') (PStr ''B''))" using t [of r6] m6 by blast
  show ?thesis
    using k [of r1] h [of r1] m1 g1 m2 g2 m3 g3 m4 g4 a5 g5 v7 d7 g7 m6 g6 d
    unfolding r1_def r2_def r3_def r4_def r5_def r6_def r7_def by (intro conjI)
qed


section \<open>The live restaurant path\<close>

lemma collect_pure_map:
  assumes "\<forall>x\<in>set xs. body (g x) = Inr (if P x then Some (f x) else None)"
  shows "collect body (map g xs) = Inr (map f (filter P xs))"
  using assms by (induction xs) simp_all

lemma take_slice_map: "take_slice (map g xs) n = map g (take_slice xs n)"
  by (simp add: take_slice_def take_map)

lemma table_cost_cases:
  "table_cost kvs = 150 \<or> table_cost kvs = 350 \<or> table_cost kvs = 600 \<or> table_cost kvs = 1200"
  by (auto simp: table_cost_def split: option.splits pyval.splits)

lemma cost_map_get_plain:
  assumes "plain_place kvs"
  shows "cost_map_get (lookup_or kvs ''price_level'' (PInt 2)) = Inr (table_cost kvs)"
  using assms
  by (auto simp: plain_place_def cost_map_get_def lookup_or_def table_cost_def cost_map_def
      split: option.splits pyval.splits)

lemma within_45_iff: "within_45 B kvs = (20 * table_cost kvs \<le> 9 * B)"
proof -
  have "within_45 B kvs = (rat_of_int (20 * table_cost kvs) \<le> rat_of_int (9 * B))"
    by (auto simp: within_45_def)
  also have "\<dots> = (20 * table_cost kvs \<le> 9 * B)" by (rule of_int_le_iff)
  finally show ?thesis .
qed

lemma table_cost_threshold:
  "(rat_of_int (table_cost kvs) \<le> rnd (rnd (rat_of_int B) * rnd (9 / 20))) = within_45 B kvs"
  unfolding within_45_iff
  using table_cost_cases [of kvs] by (intro threshold_45) auto

lemma restaurant_step_plain:
  assumes "plain_place kvs" and "\<bar>rnd (rat_of_int B)\<bar> < 2 ^ 1024"
  shows "restaurant_step w area (PInt B) (PDict kvs)
           = Inr (if within_45 B kvs then Some (live_entry w area kvs) else None)"
proof -
  have "\<bar>table_cost kvs\<bar> \<le> 2 ^ 20" using table_cost_cases [of kvs] by auto
  then show ?thesis
    using assms
    by (simp add: restaurant_step_def cost_map_get_plain py_mul_lit_int py_gt_int_fl
        table_cost_threshold live_entry_def)
qed

lemma search_restaurants_live:
  assumes "GOOGLE_API_KEY w \<noteq> []" and "http_json w = Inr (PDict d)"
    and "lookup_or d ''results'' (PList []) = PList (map PDict places)"
    and "\<forall>kvs\<in>set places. plain_place kvs" and "\<bar>B\<bar> \<le> 2 ^ 1023"
  shows "search_restaurants w area (PInt B) cuisine (PInt limit)
           = cap_then_filter w area B limit places"
proof -
  have fits: "\<bar>rnd (rat_of_int B)\<bar> < 2 ^ 1024" using assms(5) by (rule rnd_int_fits)
  have "\<forall>kvs\<in>set (take_slice places limit).
          restaurant_step w area (PInt B) (PDict kvs)
            = Inr (if within_45 B kvs then Some (live_entry w area kvs) else None)"
    using assms(4) fits set_take_slice [of places limit]
    by (auto simp: restaurant_step_plain)
  from collect_pure_map
         [of "take_slice places limit" "restaurant_step w area (PInt B)" PDict "within_45 B"
             "live_entry w area", OF this]
  have "collect (restaurant_step w area (PInt B)) (take_slice (map PDict places) limit)
          = Inr (map (live_entry w area) (filter (within_45 B) (take_slice places limit)))"
    by (simp add: take_slice_map)
  then show ?thesis
    using assms(1,2,3) by (simp add: search_restaurants_def cap_then_filter_def Let_def)
qed

lemma live_entry_not_mock: "live_entry w area kvs \<notin> set all_restaurants"
  by (simp add: live_entry_def restaurant_entry_def all_restaurants_def)

lemma cap_then_filter_fallback:
  assumes "\<bar>B\<bar> \<le> 2 ^ 1023"
  shows "(cap_then_filter w area B limit places = mock_restaurants area (PInt B))
           = (filter (within_45 B) (take_slice places limit) = [])"
proof (cases "filter (within_45 B) (take_slice places limit)")
  case Nil
  then show ?thesis by (simp add: cap_then_filter_def)
next
  case (Cons kvs rest)
  have fits: "\<not> 2 ^ 1024 \<le> \<bar>rnd (rat_of_int B)\<bar>" using rnd_int_fits [OF assms] by simp
  have "cap_then_filter w area B limit places \<noteq> mock_restaurants area (PInt B)"
  proof
    assume "cap_then_filter w area B limit places = mock_restaurants area (PInt B)"
    then have "live_entry w area kvs # map (live_entry w area) rest
                 = take 4 (filter (at_most ''estimated_cost'' (1 / 2 * rat_of_int B)) all_restaurants)"
      using Cons fits by (simp add: cap_then_filter_def mock_restaurants_int)
    then have "live_entry w area kvs
                 \<in> set (take 4 (filter (at_most ''estimated_cost'' (1 / 2 * rat_of_int B)) all_restaurants))"
      by (metis list.set_intros(1))
    then have "live_entry w area kvs \<in> set all_restaurants"
      by (auto dest: in_set_takeD)
    then show False using live_entry_not_mock by blast
  qed
  then show ?thesis using Cons by simp
qed

text \<open>
  Claim C1, as stated, fails: the loop cuts the response list at \<open>limit\<close> before it
  filters by budget, so the result is not the first \<open>limit\<close> elements of the filtered
  list. With the budget 1000 and the limit 1, a response of a place of price level 4
  followed by one of price level 1 keeps nothing of its first element and falls back to
  the mock list, where filtering first would return the second place.
\<close>

theorem live_restaurants_not_filter_then_cap:
  "search_restaurants
     (online (PDict [(''results'', PList [PDict [(''name'', PStr ''X''), (''price_level'', PInt 4)],
                                          PDict [(''name'', PStr ''Y''), (''price_level'', PInt 1)]])]))
     (PStr ''A'') (PInt 1000) (PStr []) (PInt 1)
     = mock_restaurants (PStr ''A'') (PInt 1000)
   \<and> filter_then_cap
       (online (PDict [(''results'', PList [PDict [(''name'', PStr ''X''), (''price_level'', PInt 4)],
                                            PDict [(''name'', PStr ''Y''), (''price_level'', PInt 1)]])]))
       (PStr ''A'') 1000 1
       [[(''name'', PStr ''X''), (''price_level'', PInt 4)],
        [(''name'', PStr ''Y''), (''price_level'', PInt 1)]]
     = Inr (PList [live_entry
         (online (PDict [(''results'', PList [PDict [(''name'', PStr ''X''), (''price_level'', PInt 4)],
                                              PDict [(''name'', PStr ''Y''), (''price_level'', PInt 1)]])]))
         (PStr ''A'') [(''name'', PStr ''Y''), (''price_level'', PInt 1)]])
   \<and> search_restaurants
       (online (PDict [(''results'', PList [PDict [(''name'', PStr ''X''), (''price_level'', PInt 4)],
                                            PDict [(''name'', PStr ''Y''), (''price_level'', PInt 1)]])]))
       (PStr ''A'') (PInt 1000) (PStr []) (PInt 1)
     \<noteq> filter_then_cap
       (online (PDict [(''results'', PList [PDict [(''name'', PStr ''X''), (''price_level'', PInt 4)],
                                            PDict [(''name'', PStr ''Y''), (''price_level'', PInt 1)]])]))
       (PStr ''A'') 1000 1
       [[(''name'', PStr ''X''), (''price_level'', PInt 4)],
        [(''name'', PStr ''Y''), (''price_level'', PInt 1)]]"
proof -
  define px where "px = [(''name'', PStr ''X''), (''price_level'', PInt 4)]"
  define py where "py = [(''name'', PStr ''Y''), (''price_level'', PInt 1)]"
  define w where "w = online (PDict [(''results'', PList [PDict px, PDict py])])"
  have wx: "\<not> within_45 1000 px" and wy: "within_45 1000 py"
    by (simp_all add: within_45_def table_cost_def px_def py_def)
  have "search_restaurants w (PStr ''A'') (PInt 1000) (PStr []) (PInt 1)
          = cap_then_filter w (PStr ''A'') 1000 1 [px, py]"
    by (rule search_restaurants_live [where d = "[(''results'', PList [PDict px, PDict py])]"])
      (simp_all add: w_def online_def lookup_or_def plain_place_def px_def py_def)
  then have a: "search_restaurants w (PStr ''A'') (PInt 1000) (PStr []) (PInt 1)
                  = mock_restaurants (PStr ''A'') (PInt 1000)"
    using wx by (simp add: cap_then_filter_def take_slice_def)
  have b: "filter_then_cap w (PStr ''A'') 1000 1 [px, py]
             = Inr (PList [live_entry w (PStr ''A'') py])"
    using wx wy by (simp add: filter_then_cap_def)
  have "mock_restaurants (PStr ''A'') (PInt 1000) \<noteq> Inr (PList [live_entry w (PStr ''A'') py])"
    by (simp add: mock_restaurants_int rnd_1000 all_restaurants_def at_most_def field_def)
  with a b show ?thesis unfolding w_def px_def py_def by simp
qed


text \<open>
  Claim C1, amended. On the live path, for a response whose \<open>results\<close> are places with
  an absent or \<open>int\<close> price level and a budget \<open>B\<close> up to \<open>2 ^ 1023\<close> in magnitude, each
  place is given the cost of the table \<open>{1:150, 2:350, 3:600, 4:1200}\<close> (350 otherwise),
  the response list is first cut to its slice \<open>[:limit]\<close> and the places of that slice
  whose cost exceeds \<open>0.45 * B\<close> are discarded; the result is the list of the records of
  the remaining places, at most \<open>limit\<close> of them, and it is the mock list exactly when
  none remains.
\<close>

theorem live_restaurants_cap_then_filter:
  assumes "GOOGLE_API_KEY w \<noteq> []" and "http_json w = Inr (PDict d)"
    and "lookup_or d ''results'' (PList []) = PList (map PDict places)"
    and "\<forall>kvs\<in>set places. plain_place kvs" and "\<bar>B\<bar> \<le> 2 ^ 1023"
  shows "search_restaurants w area (PInt B) cuisine (PInt limit)
           = cap_then_filter w area B limit places
         \<and> ((search_restaurants w area (PInt B) cuisine (PInt limit)
               = mock_restaurants area (PInt B))
            \<longleftrightarrow> filter (within_45 B) (take_slice places limit) = [])
         \<and> (0 \<le> limit \<longrightarrow> length (filter (within_45 B) (take_slice places limit)) \<le> nat limit)
         \<and> field ''estimated_cost'' (live_entry w area kvs) = Some (PInt (table_cost kvs))"
proof -
  have a: "search_restaurants w area (PInt B) cuisine (PInt limit)
             = cap_then_filter w area B limit places"
    using assms by (rule search_restaurants_live)
  have b: "(cap_then_filter w area B limit places = mock_restaurants area (PInt B))
             = (filter (within_45 B) (take_slice places limit) = [])"
    using assms(5) by (rule cap_then_filter_fallback)
  have c: "length (filter (within_45 B) (take_slice places limit)) \<le> nat limit" if "0 \<le> limit"
  proof -
    have "length (filter (within_45 B) (take_slice places limit))
            \<le> length (take_slice places limit)"
      by (rule length_filter_le)
    also have "\<dots> \<le> nat limit" using that by (rule length_take_slice)
    finally show ?thesis .
  qed
  have e: "field ''estimated_cost'' (live_entry w area kvs) = Some (PInt (table_cost kvs))"
    by (simp add: field_def live_entry_def restaurant_entry_def)
  show ?thesis using a b c e by simp
qed

theorem live_restaurants_cap_then_filter_witness:
  "GOOGLE_API_KEY (online (PDict [(''results'', PList (map PDict
       [[(''name'', PStr ''X''), (''price_level'', PInt 4)],
        [(''name'', PStr ''Y''), (''price_level'', PInt 1)],
        [(''name'', PStr ''Z'')]]))])) \<noteq> []
   \<and> list_all plain_place
       [[(''name'', PStr ''X''), (''price_level'', PInt 4)],
        [(''name'', PStr ''Y''), (''price_level'', PInt 1)],
        [(''name'', PStr ''Z'')]]
   \<and> \<bar>1000 :: int\<bar> \<le> 2 ^ 1023
   \<and> search_restaurants
       (online (PDict [(''results'', PList (map PDict
          [[(''name'', PStr ''X''), (''price_level'', PInt 4)],
           [(''name'', PStr ''Y''), (''price_level'', PInt 1)],
           [(''name'', PStr ''Z'')]]))]))
       (PStr ''A'') (PInt 1000) (PStr []) (PInt 2)
     = Inr (PList [live_entry
         (online (PDict [(''results'', PList (map PDict
            [[(''name'', PStr ''X''), (''price_level'', PInt 4)],
             [(''name'', PStr ''Y''), (''price_level'', PInt 1)],
             [(''name'', PStr ''Z'')]]))]))
         (PStr ''A'') [(''name'', PStr ''Y''), (''price_level'', PInt 1)]])
   \<and> table_cost [(''name'', PStr ''Y''), (''price_level'', PInt 1)] = 150
   \<and> table_cost [(''name'', PStr ''Z'')] = 350"
proof -
  define ps where "ps = [[(''name'', PStr ''X''), (''price_level'', PInt 4)],
        [(''name'', PStr ''Y''), (''price_level'', PInt 1)],
        [(''name'', PStr ''Z'')]]"
  define w where "w = online (PDict [(''results'', PList (map PDict ps))])"
  have k: "GOOGLE_API_KEY w \<noteq> []" by (simp add: w_def online_def)
  have h: "http_json w = Inr (PDict [(''results'', PList (map PDict ps))])"
    by (simp add: w_def online_def)
  have r: "lookup_or [(''results'', PList (map PDict ps))] ''results'' (PList [])
             = PList (map PDict ps)"
    by (simp add: lookup_or_def)
  have p: "\<forall>kvs\<in>set ps. plain_place kvs" by (simp add: ps_def plain_place_def)
  have b: "\<bar>1000 :: int\<bar> \<le> 2 ^ 1023" by simp
  have "search_restaurants w (PStr ''A'') (PInt 1000) (PStr []) (PInt 2)
          = cap_then_filter w (PStr ''A'') 1000 2 ps"
    using live_restaurants_cap_then_filter [OF k h r p b] by blast
  also have "\<dots> = Inr (PList [live_entry w (PStr ''A'')
                        [(''name'', PStr ''Y''), (''price_level'', PInt 1)]])"
    by (simp add: cap_then_filter_def take_slice_def ps_def within_45_def table_cost_def)
  finally have s: "search_restaurants w (PStr ''A'') (PInt 1000) (PStr []) (PInt 2)
          = Inr (PList [live_entry w (PStr ''A'')
                        [(''name'', PStr ''Y''), (''price_level'', PInt 1)]])" .
  have l: "list_all plain_place ps" using p by (simp add: list_all_iff)
  have t: "table_cost [(''name'', PStr ''Y''), (''price_level'', PInt 1)] = 150"
    "table_cost [(''name'', PStr ''Z'')] = 350"
    by (simp_all add: table_cost_def)
  show ?thesis
    using k l b s t unfolding w_def ps_def by (intro conjI)
qed



section \<open>The dispatcher's error boundary\<close>

lemma check_call_unexpected:
  assumes "key \<in> fst ` set kwargs" and "key \<notin> fst ` set params"
  shows "\<exists>e. check_call f params kwargs = Inl e \<and> exc_class e = TypeError"
proof -
  have "filter (\<lambda>kv. fst kv \<notin> set (map fst params)) kwargs \<noteq> []"
    using assms by (auto simp: filter_empty_conv)
  then show ?thesis
    by (cases "filter (\<lambda>kv. fst kv \<notin> set (map fst params)) kwargs")
      (auto simp: check_call_def)
qed

lemma check_call_missing:
  assumes "(name, None) \<in> set params" and "name \<notin> fst ` set kwargs"
  shows "\<exists>e. check_call f params kwargs = Inl e \<and> exc_class e = TypeError"
proof (cases "filter (\<lambda>kv. fst kv \<notin> set (map fst params)) kwargs")
  case (Cons kv rest)
  then show ?thesis by (simp add: check_call_def)
next
  case Nil
  have "map_of kwargs name = None" using assms(2) by (simp add: map_of_eq_None_iff)
  then have "filter (\<lambda>p. snd p = None \<and> map_of kwargs (fst p) = None) params \<noteq> []"
    using assms(1) by (force simp: filter_empty_conv)
  then show ?thesis using Nil
    by (cases "filter (\<lambda>p. snd p = None \<and> map_of kwargs (fst p) = None) params")
      (auto simp: check_call_def)
qed

lemma run_tool_checks:
  assumes "(tool_name, params) \<in> set tool_params"
    and "check_call tool_name params tool_input = Inl e"
  shows "run_tool w tool_name tool_input = Inl e"
proof -
  from assms(1) consider
      "tool_name = ''search_restaurants''" "params = search_restaurants_params"
    | "tool_name = ''search_movies''" "params = search_movies_params"
    | "tool_name = ''search_places''" "params = search_places_params"
    | "tool_name = ''get_travel_info''" "params = get_travel_info_params"
    unfolding tool_params_def by fastforce
  then show ?thesis
  proof cases
    case 1
    with assms(2) have "check_call ''search_restaurants'' search_restaurants_params tool_input = Inl e"
      by simp
    then show ?thesis unfolding 1(1) run_tool_def by simp
  next
    case 2
    with assms(2) have "check_call ''search_movies'' search_movies_params tool_input = Inl e"
      by simp
    then show ?thesis unfolding 2(1) run_tool_def by simp
  next
    case 3
    with assms(2) have "check_call ''search_places'' search_places_params tool_input = Inl e"
      by simp
    then show ?thesis unfolding 3(1) run_tool_def by simp
  next
    case 4
    with assms(2) have "check_call ''get_travel_info'' get_travel_info_params tool_input = Inl e"
      by simp
    then show ?thesis unfolding 4(1) run_tool_def by simp
  qed
qed

lemma json_string_error: "json_string True ''error'' = CHR 0x22 # ''error'' @ [CHR 0x22]"
  by (simp add: json_string_def json_escape_def is_cont_def esc_char_ascii_def code_point_def
      esc_byte_def)

text \<open>
  Claim C6. For every tool name and argument mapping the dispatcher returns a string:
  the serialised result when the selected tool returns, the serialised record
  \<open>{"error": <message>}\<close> with the text of the exception when anything in the \<open>try\<close>
  block raises. In particular a keyword that names no parameter of the selected tool, or
  a missing required parameter, raises \<open>TypeError\<close> in the call and comes back as such an
  error record.
\<close>

theorem dispatcher_never_raises:
  \<open>execute_tool w tool_name tool_input
     = (case run_tool w tool_name tool_input of
          Inr result \<Rightarrow> json_dumps w False result
        | Inl e \<Rightarrow> ''{"error": '' @ json_string True (str_exc w e) @ ''}'')
   \<and> ((tool_name, params) \<in> set tool_params
        \<and> ((\<exists>key. key \<in> fst ` set tool_input \<and> key \<notin> fst ` set params)
           \<or> (\<exists>name. (name, None) \<in> set params \<and> name \<notin> fst ` set tool_input))
      \<longrightarrow> (\<exists>e. run_tool w tool_name tool_input = Inl e \<and> exc_class e = TypeError
               \<and> execute_tool w tool_name tool_input
                 = ''{"error": '' @ json_string True (str_exc w e) @ ''}''))\<close>
proof -
  have dumped: \<open>json_dumps w True (PDict [(''error'', PStr s)])
                 = ''{"error": '' @ json_string True s @ ''}''\<close> for s
    by (simp add: json_string_error)
  have a: \<open>execute_tool w tool_name tool_input
     = (case run_tool w tool_name tool_input of
          Inr result \<Rightarrow> json_dumps w False result
        | Inl e \<Rightarrow> ''{"error": '' @ json_string True (str_exc w e) @ ''}'')\<close>
    by (cases "run_tool w tool_name tool_input") (simp_all add: execute_tool_def json_string_error)
  have b: \<open>\<exists>e. run_tool w tool_name tool_input = Inl e \<and> exc_class e = TypeError
               \<and> execute_tool w tool_name tool_input
                 = ''{"error": '' @ json_string True (str_exc w e) @ ''}''\<close>
    if t: "(tool_name, params) \<in> set tool_params"
      and bad: "(\<exists>key. key \<in> fst ` set tool_input \<and> key \<notin> fst ` set params)
           \<or> (\<exists>name. (name, None) \<in> set params \<and> name \<notin> fst ` set tool_input)"
  proof -
    from bad obtain e where
      "check_call tool_name params tool_input = Inl e" "exc_class e = TypeError"
      using check_call_unexpected [of _ tool_input params tool_name]
        check_call_missing [of _ params tool_input tool_name] by blast
    with run_tool_checks [OF t] have "run_tool w tool_name tool_input = Inl e" by blast
    with a \<open>exc_class e = TypeError\<close> show ?thesis by simp
  qed
  show ?thesis using a b by blast
qed

theorem dispatcher_never_raises_witness:
  \<open>(''search_restaurants'', search_restaurants_params) \<in> set tool_params
   \<and> ''radius'' \<in> fst ` set [(''area'', PStr ''A''), (''max_budget_per_person'', PInt 500),
                               (''radius'', PInt 3)]
   \<and> ''radius'' \<notin> fst ` set search_restaurants_params
   \<and> run_tool offline ''search_restaurants''
        [(''area'', PStr ''A''), (''max_budget_per_person'', PInt 500), (''radius'', PInt 3)]
     = Inl (Exc TypeError ''search_restaurants'' [PStr ''radius''])
   \<and> execute_tool offline ''search_restaurants''
        [(''area'', PStr ''A''), (''max_budget_per_person'', PInt 500), (''radius'', PInt 3)]
     = ''{"error": "?"}''
   \<and> execute_tool offline ''search_restaurants''
        [(''area'', PStr ''A''), (''max_budget_per_person'', PStr ''cheap'')]
     = ''{"error": "?"}''\<close>
proof -
  define input where "input = [(''area'', PStr ''A''), (''max_budget_per_person'', PInt 500),
                               (''radius'', PInt 3)]"
  have t: "(''search_restaurants'', search_restaurants_params) \<in> set tool_params"
    by (simp add: tool_params_def)
  have k: "''radius'' \<in> fst ` set input" by (simp add: input_def)
  have n: "''radius'' \<notin> fst ` set search_restaurants_params"
    by (simp add: search_restaurants_params_def)
  have r: "run_tool offline ''search_restaurants'' input
             = Inl (Exc TypeError ''search_restaurants'' [PStr ''radius''])"
    by (simp add: run_tool_def check_call_def search_restaurants_params_def input_def)
  have r2: "run_tool offline ''search_restaurants''
              [(''area'', PStr ''A''), (''max_budget_per_person'', PStr ''cheap'')]
            = Inl (Exc TypeError ''*'' [PStr ''cheap''])"
    by (simp add: run_tool_def check_call_def search_restaurants_params_def arg_def
        search_restaurants_def offline_def mock_restaurants_def all_restaurants_def
        keep_le_def py_mul_lit_def)
  have s: \<open>json_string True (str_exc offline e) = [CHR 0x22, CHR ''?'', CHR 0x22]\<close> for e
    by (simp add: offline_def plain_text_def json_string_def json_escape_def is_cont_def
        esc_char_ascii_def code_point_def esc_byte_def)
  from dispatcher_never_raises [of offline "''search_restaurants''" input] r s
  have e1: \<open>execute_tool offline ''search_restaurants'' input = ''{"error": "?"}''\<close>
    by simp
  from dispatcher_never_raises
         [of offline "''search_restaurants''"
             "[(''area'', PStr ''A''), (''max_budget_per_person'', PStr ''cheap'')]"] r2 s
  have e2: \<open>execute_tool offline ''search_restaurants''
              [(''area'', PStr ''A''), (''max_budget_per_person'', PStr ''cheap'')]
            = ''{"error": "?"}''\<close>
    by simp
  show ?thesis
    using t k n r e1 e2 unfolding input_def by (intro conjI)
qed

end
